theory Spec2Isabelle
  imports Complex_Main "HOL-Library.AList" "HOL-Library.Multiset"
begin


section \<open>Reviews and the review table (src/scraper.py)\<close>

text \<open>
  A \<open>datetime\<close> is modelled as a count of seconds; its \<open>.date()\<close> is the day number.
  The column \<open>at\<close> of a review is the field \<open>at'\<close>.
  A pandas DataFrame of reviews is the list of its rows, in row order.
\<close>

type_synonym timestamp = int
type_synonym day = int

definition date_of :: "timestamp \<Rightarrow> day" where
  "date_of t = t div 86400"

definition midnight :: "day \<Rightarrow> timestamp" where
  "midnight d = d * 86400"

record review =
  reviewId :: string
  userName :: string
  score :: int
  at' :: timestamp
  content :: string
  thumbsUpCount :: int
  appVersion :: "string option"
  replyContent :: "string option"
  repliedAt :: "timestamp option"

text \<open>\<open>df.drop_duplicates(subset=['reviewId'], keep='last')\<close>: a row is dropped when a later
  row carries the same id; the kept rows stay in their order.\<close>

fun drop_duplicates_last :: "review list \<Rightarrow> review list" where
  "drop_duplicates_last [] = []"
| "drop_duplicates_last (r # rs) =
     (if reviewId r \<in> set (map reviewId rs) then drop_duplicates_last rs
      else r # drop_duplicates_last rs)"

text \<open>\<open>df.sort_values('at', ascending=False)\<close>. pandas leaves the order of rows with equal
  timestamps open; the model keeps them in their previous order. No theorem below depends
  on how ties are ordered.\<close>

definition sort_values_desc :: "review list \<Rightarrow> review list" where
  "sort_values_desc rs = sort_key (\<lambda>r. - at' r) rs"

text \<open>Lines 232-235 of \<open>smart_scrape\<close>: concat, drop duplicates keeping the last, sort.\<close>

definition merge_reviews :: "review list \<Rightarrow> review list \<Rightarrow> review list" where
  "merge_reviews existing_df new_reviews =
     sort_values_desc (drop_duplicates_last (existing_df @ new_reviews))"

definition filter_by_date_range :: "review list \<Rightarrow> timestamp \<Rightarrow> timestamp \<Rightarrow> review list" where
  "filter_by_date_range df start_date end_date =
     (if df = [] then df
      else filter (\<lambda>r. date_of start_date \<le> date_of (at' r) \<and> date_of (at' r) \<le> date_of end_date) df)"

definition TREND_WINDOW_DAYS :: int where
  "TREND_WINDOW_DAYS = 1"

text \<open>\<open>get_trend_date_range\<close>; the target date string is taken already parsed, as a day.\<close>

definition get_trend_date_range :: "day \<Rightarrow> timestamp \<times> timestamp" where
  "get_trend_date_range target_date =
     (let end_date = midnight target_date;
          start_date = end_date - TREND_WINDOW_DAYS * 86400
      in (start_date, end_date))"

text \<open>
  \<open>smart_scrape\<close>. The reviews CSV is \<open>None\<close> when the file does not exist. The network fetch
  \<open>fetch_reviews_by_date_range\<close> is a parameter, called with the reference date and the
  cutoff date. The result carries the returned frame, the CSV as it is afterwards, and the
  fetch calls issued, in order, each as (reference, cutoff).
\<close>

record scrape_result =
  returned :: "review list"
  csv_after :: "review list option"
  fetch_calls :: "(timestamp \<times> timestamp) list"

definition smart_scrape ::
  "(timestamp \<Rightarrow> timestamp \<Rightarrow> review list) \<Rightarrow> review list option \<Rightarrow> day \<Rightarrow> scrape_result" where
  "smart_scrape fetch csv target_date =
     (let (start_date, end_date) = get_trend_date_range target_date in
      case csv of
        None \<Rightarrow>
          (let all_reviews = fetch end_date start_date
           in \<lparr>returned = all_reviews, csv_after = Some all_reviews,
               fetch_calls = [(end_date, start_date)]\<rparr>)
      | Some existing_df \<Rightarrow>
          if existing_df = [] then
            (let all_reviews = fetch end_date start_date
             in \<lparr>returned = all_reviews, csv_after = Some all_reviews,
                 fetch_calls = [(end_date, start_date)]\<rparr>)
          else
            (let csv_min_date = Min (set (map at' existing_df));
                 csv_max_date = Max (set (map at' existing_df))
             in if date_of start_date \<ge> date_of csv_min_date
                   \<and> date_of end_date \<le> date_of csv_max_date then
                  \<lparr>returned = filter_by_date_range existing_df start_date end_date,
                   csv_after = csv, fetch_calls = []\<rparr>
                else if date_of end_date > date_of csv_max_date then
                  (let new_reviews = fetch end_date csv_max_date;
                       combined = merge_reviews existing_df new_reviews
                   in \<lparr>returned = filter_by_date_range combined start_date end_date,
                       csv_after = Some combined,
                       fetch_calls = [(end_date, csv_max_date)]\<rparr>)
                else if date_of start_date < date_of csv_min_date then
                  \<lparr>returned = filter_by_date_range existing_df start_date end_date,
                   csv_after = csv, fetch_calls = []\<rparr>
                else
                  \<lparr>returned = filter_by_date_range existing_df start_date end_date,
                   csv_after = csv, fetch_calls = []\<rparr>))"

text \<open>
  \<open>fetch_reviews_by_date_range\<close>. The Play Store is the list of the pages that successive
  calls of \<open>reviews\<close> return, newest review first; after the last page there is no
  continuation token, and a call that raises ends the paging like a missing page. Scanning a
  page stops the whole fetch at the first review older than the cutoff; a review newer than
  the reference date is skipped.
\<close>

fun scan_page :: "timestamp \<Rightarrow> timestamp \<Rightarrow> review list \<Rightarrow> review list \<Rightarrow> bool \<times> review list" where
  "scan_page reference_date cutoff_date all_reviews [] = (False, all_reviews)"
| "scan_page reference_date cutoff_date all_reviews (r # result) =
     (if at' r < cutoff_date then (True, all_reviews)
      else scan_page reference_date cutoff_date
             (if at' r \<le> reference_date then all_reviews @ [r] else all_reviews) result)"

fun fetch_pages :: "timestamp \<Rightarrow> timestamp \<Rightarrow> review list \<Rightarrow> review list list \<Rightarrow> review list" where
  "fetch_pages reference_date cutoff_date all_reviews [] = all_reviews"
| "fetch_pages reference_date cutoff_date all_reviews (result # pages) =
     (if result = [] then all_reviews
      else case scan_page reference_date cutoff_date all_reviews result of
             (True, collected) \<Rightarrow> collected
           | (False, collected) \<Rightarrow> fetch_pages reference_date cutoff_date collected pages)"

definition convert_to_dataframe :: "review list \<Rightarrow> review list" where
  "convert_to_dataframe reviews_list =
     (if reviews_list = [] then [] else sort_values_desc reviews_list)"

definition fetch_reviews_by_date_range ::
  "review list list \<Rightarrow> timestamp \<Rightarrow> timestamp \<Rightarrow> review list" where
  "fetch_reviews_by_date_range play_store reference_date cutoff_date =
     convert_to_dataframe (fetch_pages reference_date cutoff_date [] play_store)"

section \<open>Python strings (ASCII)\<close>

text \<open>
  Strings are byte lists. \<open>str.lower\<close>, \<open>str.strip\<close>, \<open>str.title\<close> and the regular
  expressions of \<open>generate_topic_id\<close> are modelled on ASCII text.
\<close>

definition is_space :: "char \<Rightarrow> bool" where
  "is_space c = (let n = (of_char c :: nat) in (9 \<le> n \<and> n \<le> 13) \<or> (28 \<le> n \<and> n \<le> 32))"

definition is_upper :: "char \<Rightarrow> bool" where
  "is_upper c = (let n = (of_char c :: nat) in 65 \<le> n \<and> n \<le> 90)"

definition is_lower :: "char \<Rightarrow> bool" where
  "is_lower c = (let n = (of_char c :: nat) in 97 \<le> n \<and> n \<le> 122)"

definition is_digit :: "char \<Rightarrow> bool" where
  "is_digit c = (let n = (of_char c :: nat) in 48 \<le> n \<and> n \<le> 57)"

text \<open>In ASCII a letter changes case by adding or removing 32, which is bit 5 of its code.\<close>

definition lower_char :: "char \<Rightarrow> char" where
  "lower_char c =
     (if is_upper c
      then (case c of Char b0 b1 b2 b3 b4 b5 b6 b7 \<Rightarrow> Char b0 b1 b2 b3 b4 True b6 b7)
      else c)"

definition upper_char :: "char \<Rightarrow> char" where
  "upper_char c =
     (if is_lower c
      then (case c of Char b0 b1 b2 b3 b4 b5 b6 b7 \<Rightarrow> Char b0 b1 b2 b3 b4 False b6 b7)
      else c)"

definition py_lower :: "string \<Rightarrow> string" where
  "py_lower s = map lower_char s"

definition py_strip :: "string \<Rightarrow> string" where
  "py_strip s = rev (dropWhile is_space (rev (dropWhile is_space s)))"

text \<open>\<open>str.title\<close>: a letter is upper-cased when it follows a non-letter, lower-cased otherwise.\<close>

fun title_from :: "bool \<Rightarrow> string \<Rightarrow> string" where
  "title_from prev_cased [] = []"
| "title_from prev_cased (c # cs) =
     (if is_upper c \<or> is_lower c
      then (if prev_cased then lower_char c else upper_char c) # title_from True cs
      else c # title_from False cs)"

definition py_title :: "string \<Rightarrow> string" where
  "py_title s = title_from False s"

section \<open>Replies of the language model (\<open>src/utils/groq_client.py\<close>)\<close>

text \<open>
  \<open>send_message_json\<close> returns \<open>None\<close> (transport failure after the retries, or a response
  that does not parse) or the parsed JSON value. The model distinguishes what the callers
  distinguish: no reply, a JSON object, a JSON array, any other JSON value. An element of an
  array is an object or something else. The fields of an object carry their documented
  types; a key that may be missing is an \<open>option\<close>. A field that holds a value of another
  type (a JSON null or a string where a number or a list is expected) makes the code raise
  where it reads the field; such replies are outside the model, so the model raises in
  fewer cases than the code.
\<close>

datatype 'a json_item = Item 'a | NotObject

datatype 'a json_reply = NoReply | Object 'a | Array "'a json_item list" | Scalar

datatype error = AttributeError | KeyError | TypeError

section \<open>The taxonomy (\<open>config/seed_topics.py, src/utils/storage.py\<close>)\<close>

text \<open>A date string \<open>YYYY-MM-DD\<close> is represented by the day it denotes, and an ISO time
  stamp by the time it denotes.\<close>

record topic_def =
  topic_id :: string
  topic_name :: string
  category :: string
  variations :: "string list"
  description :: string
  added_date :: day
  is_seed :: bool
  app_specific :: bool

record taxonomy =
  tax_app_id :: string
  topics :: "topic_def list"
  last_updated :: timestamp

section \<open>Topic mapping (\<open>src/agents/topic_mapper.py\<close>)\<close>

text \<open>The Python literal \<open>0.70\<close> denotes the double nearest to it; a confidence is the exact
  value of the number the reply carried.\<close>

definition CONFIDENCE_THRESHOLD :: rat where
  "CONFIDENCE_THRESHOLD = 3152519739159347 / 4503599627370496"

text \<open>A mapping result. \<open>mapped_topic_id = None\<close> is JSON null; \<open>confidence = None\<close> and
  \<open>extracted_topic = None\<close> stand for a missing key.\<close>

record mapping_result =
  extracted_topic :: "string option"
  mapped_topic_id :: "string option"
  confidence :: "rat option"
  reasoning :: string

text \<open>\<open>r.get('confidence', 0.0)\<close>\<close>

definition get_confidence :: "mapping_result \<Rightarrow> rat" where
  "get_confidence r = (case confidence r of None \<Rightarrow> 0 | Some c \<Rightarrow> c)"

text \<open>The extraction result of one review: \<open>reviewId\<close> and \<open>extractedTopics\<close>, either key may
  be missing.\<close>

record extraction =
  er_reviewId :: "string option"
  er_extractedTopics :: "string list option"

definition get_extractedTopics :: "extraction \<Rightarrow> string list" where
  "get_extractedTopics e = (case er_extractedTopics e of None \<Rightarrow> [] | Some ts \<Rightarrow> ts)"

definition get_reviewId :: "extraction \<Rightarrow> string" where
  "get_reviewId e = (case er_reviewId e of None \<Rightarrow> [] | Some i \<Rightarrow> i)"

text \<open>The reply to the validation request of the consolidator.\<close>

record validation =
  is_valid :: "bool option"
  suggested_topic_id :: "string option"
  suggested_topic_name :: "string option"
  suggested_category :: "string option"
  val_reasoning :: "string option"

text \<open>
  The client: one reply per request. The prompts are built from the arguments shown, so
  the oracle is a function of them.
\<close>

record groq_client =
  ask_extract :: "review list \<Rightarrow> extraction json_reply"
  ask_map_single :: "string \<Rightarrow> taxonomy \<Rightarrow> mapping_result json_reply"
  ask_map_batch :: "string list \<Rightarrow> taxonomy \<Rightarrow> mapping_result json_reply"
  ask_validate :: "string \<Rightarrow> string list \<Rightarrow> validation json_reply"

definition unmapped_result :: "string \<Rightarrow> string \<Rightarrow> mapping_result" where
  "unmapped_result t why =
     \<lparr>extracted_topic = Some t, mapped_topic_id = None, confidence = Some 0, reasoning = why\<rparr>"

text \<open>\<open>map_single_topic\<close>; the reasoning text of the last fallback also names the type of the
  reply, which the model leaves out.\<close>

definition map_single_topic :: "string \<Rightarrow> taxonomy \<Rightarrow> groq_client \<Rightarrow> mapping_result" where
  "map_single_topic topic tax groq =
     (case ask_map_single groq topic tax of
        NoReply \<Rightarrow> unmapped_result topic ''Failed to get mapping from LLM''
      | Object result \<Rightarrow>
          (let result = result\<lparr>extracted_topic := Some topic\<rparr>
           in if get_confidence result < CONFIDENCE_THRESHOLD
              then result\<lparr>mapped_topic_id := None\<rparr>
              else result)
      | _ \<Rightarrow> unmapped_result topic ''Unexpected response format'')"

text \<open>The loop of \<open>map_topics_batch\<close> over the reply's array: \<open>r.get\<close> raises on an element
  that is not an object.\<close>

fun apply_threshold :: "mapping_result json_item list \<Rightarrow> error + mapping_result list" where
  "apply_threshold [] = Inr []"
| "apply_threshold (NotObject # rs) = Inl AttributeError"
| "apply_threshold (Item r # rs) =
     (case apply_threshold rs of
        Inl e \<Rightarrow> Inl e
      | Inr rs' \<Rightarrow>
          Inr ((if get_confidence r < CONFIDENCE_THRESHOLD then r\<lparr>mapped_topic_id := None\<rparr> else r)
               # rs'))"

definition map_topics_batch ::
  "string list \<Rightarrow> taxonomy \<Rightarrow> groq_client \<Rightarrow> error + mapping_result list" where
  "map_topics_batch extracted_topics tax groq =
     (if extracted_topics = [] then Inr []
      else case ask_map_batch groq extracted_topics tax of
             Array result \<Rightarrow> apply_threshold result
           | _ \<Rightarrow> Inr (map (\<lambda>t. unmapped_result t ''Batch mapping failed'') extracted_topics))"

definition MAPPING_BATCH_SIZE :: nat where
  "MAPPING_BATCH_SIZE = 10"

text \<open>\<open>all_topics[i:i + n]\<close> for \<open>i\<close> in \<open>range(0, len(all_topics), n)\<close>\<close>

function chunks :: "nat \<Rightarrow> 'a list \<Rightarrow> 'a list list" where
  "chunks n xs = (if n = 0 \<or> xs = [] then [] else take n xs # chunks n (drop n xs))"
  by pat_completeness auto
termination
  by (relation "measure (\<lambda>(n, xs). length xs)") auto

declare chunks.simps [simp del]

text \<open>The set of stripped, lower-cased topics of all extraction results, as the list of its
  members in first-insertion order.\<close>

definition collect_topics :: "extraction list \<Rightarrow> string list" where
  "collect_topics extraction_results =
     rev (remdups (rev
       (map (\<lambda>t. py_lower (py_strip t))
         (filter (\<lambda>t. t \<noteq> [] \<and> py_strip t \<noteq> [])
           (concat (map get_extractedTopics extraction_results))))))"

text \<open>The inner loop: \<open>all_mappings[result.get('extracted_topic', '').lower()] = result\<close>\<close>

definition store_mappings ::
  "(string \<times> mapping_result) list \<Rightarrow> mapping_result list \<Rightarrow> (string \<times> mapping_result) list" where
  "store_mappings all_mappings results =
     foldl (\<lambda>m r. AList.update
                     (py_lower (case extracted_topic r of None \<Rightarrow> [] | Some t \<Rightarrow> t)) r m)
       all_mappings results"

fun map_batches ::
  "string list list \<Rightarrow> taxonomy \<Rightarrow> groq_client \<Rightarrow> (string \<times> mapping_result) list
     \<Rightarrow> error + (string \<times> mapping_result) list" where
  "map_batches [] tax groq all_mappings = Inr all_mappings"
| "map_batches (batch # rest) tax groq all_mappings =
     (case map_topics_batch batch tax groq of
        Inl e \<Rightarrow> Inl e
      | Inr results \<Rightarrow> map_batches rest tax groq (store_mappings all_mappings results))"

text \<open>\<open>map_topics_to_taxonomy\<close>. Python does not fix the order in which \<open>list(all_topics)\<close>
  enumerates the set; \<open>set_order\<close> is that order.\<close>

definition map_topics_to_taxonomy ::
  "(string list \<Rightarrow> string list) \<Rightarrow> extraction list \<Rightarrow> taxonomy \<Rightarrow> groq_client
     \<Rightarrow> error + (string \<times> mapping_result) list" where
  "map_topics_to_taxonomy set_order extraction_results tax groq =
     (let all_topics = set_order (collect_topics extraction_results)
      in if all_topics = [] then Inr []
         else map_batches (chunks MAPPING_BATCH_SIZE all_topics) tax groq [])"

text \<open>The post-condition of the confidence threshold on one mapping result.\<close>

definition gated :: "mapping_result \<Rightarrow> bool" where
  "gated r = (get_confidence r < CONFIDENCE_THRESHOLD \<longrightarrow> mapped_topic_id r = None)"

section \<open>Seed topics and the taxonomy file\<close>

record seed_topic =
  seed_id :: string
  seed_name :: string
  seed_category :: string
  seed_variations :: "string list"
  seed_description :: string

definition SEED_TOPICS :: "seed_topic list" where
  "SEED_TOPICS =
    [\<lparr>seed_id = ''delivery_delay'', seed_name = ''Delivery/Service Delay'',
      seed_category = ''issue'',
      seed_variations = [''late delivery'', ''slow service'', ''took too long'', ''delayed'',
                         ''waiting time'', ''takes forever''],
      seed_description = ''Service or delivery slower than expected''\<rparr>,
     \<lparr>seed_id = ''quality_issue'', seed_name = ''Product/Service Quality Issue'',
      seed_category = ''issue'',
      seed_variations = [''poor quality'', ''bad quality'', ''stale'', ''damaged'', ''not fresh'',
                         ''low quality'', ''substandard''],
      seed_description = ''Problems with quality of product/service''\<rparr>,
     \<lparr>seed_id = ''staff_behavior'', seed_name = ''Staff/Representative Behavior Issue'',
      seed_category = ''issue'',
      seed_variations = [''rude staff'', ''unprofessional'', ''bad behavior'', ''misbehaved'',
                         ''impolite'', ''disrespectful''],
      seed_description = ''Negative interaction with staff/representatives''\<rparr>,
     \<lparr>seed_id = ''order_accuracy'', seed_name = ''Order/Request Incorrect'',
      seed_category = ''issue'',
      seed_variations = [''wrong order'', ''missing items'', ''incorrect'', ''didn't receive'',
                         ''wrong item'', ''incomplete order''],
      seed_description = ''Received something different than requested''\<rparr>,
     \<lparr>seed_id = ''payment_issue'', seed_name = ''Payment/Refund Issue'',
      seed_category = ''issue'',
      seed_variations = [''payment failed'', ''refund pending'', ''charged extra'',
                         ''billing problem'', ''money deducted'', ''double charged''],
      seed_description = ''Problems with payments or refunds''\<rparr>,
     \<lparr>seed_id = ''app_technical'', seed_name = ''App Technical Issue'',
      seed_category = ''issue'',
      seed_variations = [''app crash'', ''not working'', ''login problem'', ''slow app'',
                         ''freezing'', ''glitch'', ''bug'', ''error''],
      seed_description = ''Technical problems with the application''\<rparr>,
     \<lparr>seed_id = ''customer_support'', seed_name = ''Customer Support Issue'',
      seed_category = ''issue'',
      seed_variations = [''no response'', ''support unhelpful'', ''can't reach support'',
                         ''poor customer service'', ''no help'', ''ignored''],
      seed_description = ''Issues with customer service quality''\<rparr>,
     \<lparr>seed_id = ''pricing'', seed_name = ''Pricing/Charges Issue'',
      seed_category = ''issue'',
      seed_variations = [''too expensive'', ''overpriced'', ''hidden charges'', ''high fees'',
                         ''extra charges'', ''costly''],
      seed_description = ''Complaints about pricing or fees''\<rparr>,
     \<lparr>seed_id = ''packaging'', seed_name = ''Packaging/Presentation Issue'',
      seed_category = ''issue'',
      seed_variations = [''poor packaging'', ''leaked'', ''damaged package'', ''messy'',
                         ''spilled'', ''broken seal''],
      seed_description = ''Problems with packaging or presentation''\<rparr>,
     \<lparr>seed_id = ''feature_request'', seed_name = ''Feature Request/Suggestion'',
      seed_category = ''request'',
      seed_variations = [''add feature'', ''bring back'', ''need option'', ''suggestion'',
                         ''would be great if'', ''please add''],
      seed_description = ''User requests for features or improvements''\<rparr>]"

text \<open>\<open>get_seed_topics_as_taxonomy\<close>; \<open>now\<close> is what \<open>datetime.now()\<close> returns.\<close>

definition get_seed_topics_as_taxonomy :: "timestamp \<Rightarrow> string \<Rightarrow> taxonomy" where
  "get_seed_topics_as_taxonomy now app_id =
     \<lparr>tax_app_id = app_id,
      topics = map (\<lambda>seed. \<lparr>topic_id = seed_id seed, topic_name = seed_name seed,
                              category = seed_category seed, variations = seed_variations seed,
                              description = seed_description seed, added_date = date_of now,
                              is_seed = True, app_specific = False\<rparr>) SEED_TOPICS,
      last_updated = now\<rparr>"

text \<open>The taxonomy file of the app: \<open>None\<close> when it does not exist.
  \<open>load_app_taxonomy\<close> returns the taxonomy and the file as it is afterwards.\<close>

definition load_app_taxonomy :: "timestamp \<Rightarrow> string \<Rightarrow> taxonomy option \<Rightarrow> taxonomy \<times> taxonomy option" where
  "load_app_taxonomy now app_id file =
     (case file of
        None \<Rightarrow> (let tax = get_seed_topics_as_taxonomy now app_id in (tax, Some tax))
      | Some tax \<Rightarrow> (tax, file))"

definition save_app_taxonomy :: "timestamp \<Rightarrow> taxonomy \<Rightarrow> taxonomy option" where
  "save_app_taxonomy now tax = Some (tax\<lparr>last_updated := now\<rparr>)"

text \<open>\<open>add_topics_to_taxonomy\<close>: the set of existing ids is computed once, before the loop.\<close>

definition add_topics_to_taxonomy ::
  "timestamp \<Rightarrow> string \<Rightarrow> topic_def list \<Rightarrow> taxonomy option \<Rightarrow> taxonomy option" where
  "add_topics_to_taxonomy now app_id new_topics file =
     (let (tax, file1) = load_app_taxonomy now app_id file;
          existing_ids = set (map topic_id (topics tax));
          tax = tax\<lparr>topics :=
                  foldl (\<lambda>ts topic. if topic_id topic \<notin> existing_ids then ts @ [topic] else ts)
                    (topics tax) new_topics\<rparr>
      in save_app_taxonomy now tax)"

section \<open>The consolidator (src/agents/consolidator.py)\<close>

definition MIN_TOPIC_OCCURRENCES :: nat where
  "MIN_TOPIC_OCCURRENCES = 5"

text \<open>\<open>generate_topic_id\<close>: lower-case, delete what is not a lower-case letter, a digit or
  white space, strip, replace each run of white space by one underscore, and cut to 30
  characters without trailing underscores.\<close>

fun sub_spaces :: "bool \<Rightarrow> string \<Rightarrow> string" where
  "sub_spaces in_run [] = []"
| "sub_spaces in_run (c # cs) =
     (if is_space c then (if in_run then sub_spaces True cs else CHR ''_'' # sub_spaces True cs)
      else c # sub_spaces False cs)"

definition rstrip_underscore :: "string \<Rightarrow> string" where
  "rstrip_underscore s = rev (dropWhile (\<lambda>c. c = CHR ''_'') (rev s))"

definition generate_topic_id :: "string \<Rightarrow> string" where
  "generate_topic_id name =
     (let tid = py_lower name;
          tid = filter (\<lambda>c. is_lower c \<or> is_digit c \<or> is_space c) tid;
          tid = sub_spaces False (py_strip tid)
      in if length tid > 30 then rstrip_underscore (take 30 tid) else tid)"

text \<open>\<open>validate_new_topic\<close>: the prompt shows the first 20 existing names; without a reply the
  topic counts as invalid, any other reply is returned as it is.\<close>

definition validate_new_topic :: "string \<Rightarrow> string list \<Rightarrow> groq_client \<Rightarrow> validation json_reply" where
  "validate_new_topic topic existing_topics groq =
     (case ask_validate groq topic (take 20 existing_topics) of
        NoReply \<Rightarrow> Object \<lparr>is_valid = Some False, suggested_topic_id = None,
                           suggested_topic_name = None, suggested_category = None,
                           val_reasoning = Some ''Failed to validate with LLM''\<rparr>
      | reply \<Rightarrow> reply)"

text \<open>What the detailed export says about a review: the entry of \<open>reviews_lookup\<close> built from
  its row, or only its id when the day's frame has no such row.\<close>

datatype review_data = Full review | IdOnly string

text \<open>A review attached to a topic: the review data, the extracted topic, and (under a mapped
  topic only) the confidence of the mapping.\<close>

record review_entry =
  entry_review :: review_data
  entry_extracted_topic :: string
  entry_confidence :: "rat option"

text \<open>The rows are entered in order, so a later row with the same id wins.\<close>

definition reviews_lookup :: "review list \<Rightarrow> string \<Rightarrow> review option" where
  "reviews_lookup reviews_df = map_of (rev (map (\<lambda>row. (reviewId row, row)) reviews_df))"

text \<open>The local variables of \<open>consolidate_and_discover\<close>. A \<open>Counter\<close> and a \<open>defaultdict\<close> are
  association lists in insertion order; \<open>validation_calls\<close> lists the topics for which the
  validation oracle was asked.\<close>

record locals =
  topic_counts :: "(string \<times> nat) list"
  unmapped_topics :: "string list"
  reviews_by_topic :: "(string \<times> review_entry list) list"
  reviews_with_no_topics :: "review_data list"
  unmapped_reviews :: "(string \<times> review_entry list) list"
  new_topics_to_add :: "topic_def list"
  topic_id_to_name :: "(string \<times> string) list"
  validation_calls :: "string list"

definition counter_get :: "('k \<times> nat) list \<Rightarrow> 'k \<Rightarrow> nat" where
  "counter_get c k = (case map_of c k of None \<Rightarrow> 0 | Some n \<Rightarrow> n)"

definition list_get :: "('k \<times> 'v list) list \<Rightarrow> 'k \<Rightarrow> 'v list" where
  "list_get d k = (case map_of d k of None \<Rightarrow> [] | Some v \<Rightarrow> v)"

text \<open>\<open>Counter(iterable)\<close>\<close>

definition counter_add :: "('k \<times> nat) list \<Rightarrow> 'k \<Rightarrow> ('k \<times> nat) list" where
  "counter_add c x = AList.update x (counter_get c x + 1) c"

definition counter :: "'k list \<Rightarrow> ('k \<times> nat) list" where
  "counter xs = foldl counter_add [] xs"

text \<open>The two branches of the loop over the extracted topics of one review.\<close>

definition add_mapped :: "string \<Rightarrow> review_data \<Rightarrow> string \<Rightarrow> rat \<Rightarrow> locals \<Rightarrow> locals" where
  "add_mapped mapped_id review_data topic conf st =
     st\<lparr>topic_counts := counter_add (topic_counts st) mapped_id,
        reviews_by_topic :=
          AList.update mapped_id
            (list_get (reviews_by_topic st) mapped_id
             @ [\<lparr>entry_review = review_data, entry_extracted_topic = topic,
                  entry_confidence = Some conf\<rparr>])
            (reviews_by_topic st)\<rparr>"

definition add_unmapped :: "string \<Rightarrow> review_data \<Rightarrow> string \<Rightarrow> locals \<Rightarrow> locals" where
  "add_unmapped topic_lower review_data topic st =
     st\<lparr>unmapped_topics := unmapped_topics st @ [topic],
        unmapped_reviews :=
          AList.update topic_lower
            (list_get (unmapped_reviews st) topic_lower
             @ [\<lparr>entry_review = review_data, entry_extracted_topic = topic,
                  entry_confidence = None\<rparr>])
            (unmapped_reviews st)\<rparr>"

text \<open>\<open>if mapped_id:\<close> holds for a string that is not empty.\<close>

definition tally_topic ::
  "(string \<times> mapping_result) list \<Rightarrow> review_data \<Rightarrow> locals \<Rightarrow> string \<Rightarrow> locals" where
  "tally_topic mappings review_data st topic =
     (let topic_lower = py_lower (py_strip topic) in
      case map_of mappings topic_lower of
        None \<Rightarrow> add_unmapped topic_lower review_data topic st
      | Some mapping \<Rightarrow>
          (case mapped_topic_id mapping of
             None \<Rightarrow> add_unmapped topic_lower review_data topic st
           | Some mapped_id \<Rightarrow>
               if mapped_id \<noteq> []
               then add_mapped mapped_id review_data topic (get_confidence mapping) st
               else add_unmapped topic_lower review_data topic st))"

definition tally_result ::
  "(string \<times> mapping_result) list \<Rightarrow> (string \<Rightarrow> review option) \<Rightarrow> locals \<Rightarrow> extraction \<Rightarrow> locals" where
  "tally_result mappings lookup st result =
     (let review_id = get_reviewId result;
          extracted_topics = get_extractedTopics result;
          review_data = (case lookup review_id of None \<Rightarrow> IdOnly review_id | Some r \<Rightarrow> Full r)
      in if extracted_topics = []
         then st\<lparr>reviews_with_no_topics := reviews_with_no_topics st @ [review_data]\<rparr>
         else foldl (tally_topic mappings review_data) st extracted_topics)"

definition initial_locals :: locals where
  "initial_locals =
     \<lparr>topic_counts = [], unmapped_topics = [], reviews_by_topic = [],
      reviews_with_no_topics = [], unmapped_reviews = [], new_topics_to_add = [],
      topic_id_to_name = [], validation_calls = []\<rparr>"

text \<open>The body of the loop over \<open>unmapped_counts.items()\<close>. Reading a field of a validation
  reply that is not an object raises.\<close>

definition promote_topic ::
  "groq_client \<Rightarrow> string list \<Rightarrow> day \<Rightarrow> locals \<Rightarrow> string \<times> nat \<Rightarrow> error + locals" where
  "promote_topic groq existing_names date_str st item =
     (let (topic, count) = item in
      if count \<ge> MIN_TOPIC_OCCURRENCES then
        (case validate_new_topic topic existing_names groq of
           Object validation \<Rightarrow>
             (let st = st\<lparr>validation_calls := validation_calls st @ [topic]\<rparr> in
              if (case is_valid validation of None \<Rightarrow> False | Some b \<Rightarrow> b) then
                (let new_topic =
                       \<lparr>topic_id = (case suggested_topic_id validation of
                                      None \<Rightarrow> generate_topic_id topic | Some i \<Rightarrow> i),
                        topic_name = (case suggested_topic_name validation of
                                        None \<Rightarrow> py_title topic | Some n \<Rightarrow> n),
                        category = (case suggested_category validation of
                                      None \<Rightarrow> ''issue'' | Some c \<Rightarrow> c),
                        variations = [topic],
                        description = ''Auto-discovered topic: '' @ topic,
                        added_date = date_str, is_seed = False, app_specific = True\<rparr>
                 in Inr (st\<lparr>new_topics_to_add := new_topics_to_add st @ [new_topic],
                            topic_counts :=
                              AList.update (topic_id new_topic) count (topic_counts st),
                            reviews_by_topic :=
                              AList.update (topic_id new_topic)
                                (list_get (unmapped_reviews st) topic) (reviews_by_topic st),
                            topic_id_to_name :=
                              AList.update (topic_id new_topic) (topic_name new_topic)
                                (topic_id_to_name st)\<rparr>))
              else Inr st)
         | _ \<Rightarrow> Inl AttributeError)
      else Inr st)"

fun promote_all ::
  "groq_client \<Rightarrow> string list \<Rightarrow> day \<Rightarrow> locals \<Rightarrow> (string \<times> nat) list \<Rightarrow> error + locals" where
  "promote_all groq existing_names date_str st [] = Inr st"
| "promote_all groq existing_names date_str st (item # items) =
     (case promote_topic groq existing_names date_str st item of
        Inl e \<Rightarrow> Inl e
      | Inr st' \<Rightarrow> promote_all groq existing_names date_str st' items)"

text \<open>The batch summary. The empty batch of \<open>process_single_day\<close> has only the first five
  keys; the other keys are \<open>None\<close> there.\<close>

record daily_batch =
  b_app_id :: string
  b_date :: day
  total_reviews :: nat
  topic_frequencies :: "(string \<times> nat) list"
  new_topics_discovered :: "string list"
  reviews_with_topics :: "int option"
  reviews_without_topics :: "nat option"
  total_topic_mentions :: "nat option"
  unmapped_count :: "nat option"
  processed_at :: "timestamp option"

record topic_detail =
  td_topic_name :: string
  td_count :: nat
  td_reviews :: "review_entry list"

record detailed_batch =
  d_app_id :: string
  d_date :: day
  generated_at :: timestamp
  d_total_reviews :: nat
  d_reviews_with_topics :: int
  d_reviews_without_topics :: nat
  d_total_topic_mentions :: nat
  d_unique_topics :: nat
  d_topics :: "(string \<times> topic_detail) list"
  d_unmapped_topics :: "(string \<times> nat \<times> review_entry list) list"
  reviews_without_extractable_topics :: "review_data list"

text \<open>The files of the app under analysis: the reviews CSV, the taxonomy, and per date the
  batch summary and the detailed export. A file that does not exist is absent.\<close>

record storage =
  reviews_csv :: "review list option"
  taxonomy_file :: "taxonomy option"
  batch_files :: "(day \<times> daily_batch) list"
  details_files :: "(day \<times> detailed_batch) list"

definition load_batch :: "storage \<Rightarrow> day \<Rightarrow> daily_batch option" where
  "load_batch fs date_str = map_of (batch_files fs) date_str"

definition save_batch :: "day \<Rightarrow> daily_batch \<Rightarrow> storage \<Rightarrow> storage" where
  "save_batch date_str batch_data fs =
     fs\<lparr>batch_files := AList.update date_str batch_data (batch_files fs)\<rparr>"

text \<open>What \<open>consolidate_and_discover\<close> returns and leaves behind: the batch summary, the
  detailed export, the files afterwards, and its local variables at the end.\<close>

record consolidation =
  c_batch :: daily_batch
  c_detailed :: detailed_batch
  c_storage :: storage
  c_locals :: locals

definition tally_all ::
  "extraction list \<Rightarrow> (string \<times> mapping_result) list \<Rightarrow> review list \<Rightarrow> locals" where
  "tally_all extraction_results mappings reviews_df =
     foldl (tally_result mappings (reviews_lookup reviews_df)) initial_locals extraction_results"

definition unmapped_counts_of :: "locals \<Rightarrow> (string \<times> nat) list" where
  "unmapped_counts_of st = counter (map py_lower (unmapped_topics st))"

definition make_batch ::
  "timestamp \<Rightarrow> string \<Rightarrow> day \<Rightarrow> extraction list \<Rightarrow> (string \<times> nat) list \<Rightarrow> locals \<Rightarrow> daily_batch" where
  "make_batch now app_id date_str extraction_results unmapped_counts st =
     \<lparr>b_app_id = app_id, b_date = date_str,
      total_reviews = length extraction_results,
      topic_frequencies = topic_counts st,
      new_topics_discovered = map topic_id (new_topics_to_add st),
      reviews_with_topics =
        Some (int (length extraction_results) - int (length (reviews_with_no_topics st))),
      reviews_without_topics = Some (length (reviews_with_no_topics st)),
      total_topic_mentions = Some (sum_list (map snd (topic_counts st))),
      unmapped_count =
        Some (length (filter (\<lambda>(t, c). c < MIN_TOPIC_OCCURRENCES) unmapped_counts)),
      processed_at = Some now\<rparr>"

definition make_detailed ::
  "timestamp \<Rightarrow> string \<Rightarrow> day \<Rightarrow> extraction list \<Rightarrow> locals \<Rightarrow> detailed_batch" where
  "make_detailed now app_id date_str extraction_results st =
     \<lparr>d_app_id = app_id, d_date = date_str, generated_at = now,
      d_total_reviews = length extraction_results,
      d_reviews_with_topics =
        int (length extraction_results) - int (length (reviews_with_no_topics st)),
      d_reviews_without_topics = length (reviews_with_no_topics st),
      d_total_topic_mentions = sum_list (map snd (topic_counts st)),
      d_unique_topics = length (topic_counts st),
      d_topics =
        map (\<lambda>(tid, reviews_list).
               (tid,
                \<lparr>td_topic_name = (case map_of (topic_id_to_name st) tid of
                                     None \<Rightarrow> tid | Some n \<Rightarrow> n),
                 td_count = length reviews_list, td_reviews = reviews_list\<rparr>))
          (reviews_by_topic st),
      d_unmapped_topics =
        map (\<lambda>(topic_text, reviews_list). (topic_text, length reviews_list, reviews_list))
          (filter (\<lambda>(topic_text, reviews_list).
                     \<not> (\<exists>t \<in> set (new_topics_to_add st).
                           topic_id t = generate_topic_id topic_text))
             (unmapped_reviews st)),
      reviews_without_extractable_topics = reviews_with_no_topics st\<rparr>"

text \<open>\<open>consolidate_and_discover\<close>. A failure carries the files as they are when it is raised.\<close>

definition consolidate_and_discover ::
  "timestamp \<Rightarrow> extraction list \<Rightarrow> (string \<times> mapping_result) list \<Rightarrow> string \<Rightarrow> day
     \<Rightarrow> review list \<Rightarrow> groq_client \<Rightarrow> storage \<Rightarrow> error \<times> storage + consolidation" where
  "consolidate_and_discover now extraction_results mappings app_id date_str reviews_df groq fs =
     (let st = tally_all extraction_results mappings reviews_df;
          unmapped_counts = unmapped_counts_of st;
          (tax, file) = load_app_taxonomy now app_id (taxonomy_file fs);
          fs = fs\<lparr>taxonomy_file := file\<rparr>;
          existing_names = map topic_name (topics tax);
          st = st\<lparr>topic_id_to_name := map (\<lambda>t. (topic_id t, topic_name t)) (topics tax)\<rparr>
      in case promote_all groq existing_names date_str st unmapped_counts of
           Inl e \<Rightarrow> Inl (e, fs)
         | Inr st \<Rightarrow>
             (let fs = (if new_topics_to_add st \<noteq> []
                        then fs\<lparr>taxonomy_file :=
                                 add_topics_to_taxonomy now app_id (new_topics_to_add st)
                                   (taxonomy_file fs)\<rparr>
                        else fs);
                  batch_data = make_batch now app_id date_str extraction_results unmapped_counts st;
                  fs = save_batch date_str batch_data fs;
                  detailed_data = make_detailed now app_id date_str extraction_results st;
                  fs = fs\<lparr>details_files := AList.update date_str detailed_data (details_files fs)\<rparr>
              in Inr \<lparr>c_batch = batch_data, c_detailed = detailed_data, c_storage = fs,
                      c_locals = st\<rparr>))"

section \<open>Topic extraction (\<open>src/agents/topic_extractor.py\<close>)\<close>

definition BATCH_SIZE :: nat where
  "BATCH_SIZE = 20"

definition no_topics_for :: "review \<Rightarrow> extraction json_item" where
  "no_topics_for r = Item \<lparr>er_reviewId = Some (reviewId r), er_extractedTopics = Some []\<rparr>"

definition extract_topics_from_batch :: "review list \<Rightarrow> groq_client \<Rightarrow> extraction json_item list" where
  "extract_topics_from_batch reviews groq =
     (if reviews = [] then []
      else case ask_extract groq reviews of
             Array result \<Rightarrow> result
           | _ \<Rightarrow> map no_topics_for reviews)"

text \<open>The count of extracted topics at the end of \<open>extract_topics_for_reviews\<close> reads every
  result with \<open>r.get\<close>, which raises on an element that is not an object.\<close>

fun objects :: "'a json_item list \<Rightarrow> error + 'a list" where
  "objects [] = Inr []"
| "objects (NotObject # xs) = Inl AttributeError"
| "objects (Item x # xs) = (case objects xs of Inl e \<Rightarrow> Inl e | Inr ys \<Rightarrow> Inr (x # ys))"

definition extract_topics_for_reviews :: "review list \<Rightarrow> groq_client \<Rightarrow> error + extraction list" where
  "extract_topics_for_reviews reviews_df groq =
     (if reviews_df = [] then Inr []
      else objects (concat (map (\<lambda>batch. extract_topics_from_batch batch groq)
                              (chunks BATCH_SIZE reviews_df))))"

section \<open>The pipeline (main.py)\<close>

definition get_reviews_for_date :: "review list \<Rightarrow> day \<Rightarrow> review list" where
  "get_reviews_for_date df date_str = filter (\<lambda>r. date_of (at' r) = date_str) df"

definition empty_batch :: "string \<Rightarrow> day \<Rightarrow> daily_batch" where
  "empty_batch app_id date_str =
     \<lparr>b_app_id = app_id, b_date = date_str, total_reviews = 0, topic_frequencies = [],
      new_topics_discovered = [], reviews_with_topics = None, reviews_without_topics = None,
      total_topic_mentions = None, unmapped_count = None, processed_at = None\<rparr>"

text \<open>\<open>process_single_day\<close> returns the batch and leaves the files; a failure carries the
  files as they are when it is raised.\<close>

definition process_single_day ::
  "timestamp \<Rightarrow> (string list \<Rightarrow> string list) \<Rightarrow> review list \<Rightarrow> day \<Rightarrow> string \<Rightarrow> groq_client
     \<Rightarrow> storage \<Rightarrow> error \<times> storage + daily_batch \<times> storage" where
  "process_single_day now set_order reviews_df date_str app_id groq fs =
     (let day_reviews = get_reviews_for_date reviews_df date_str in
      if day_reviews = [] then Inr (empty_batch app_id date_str, fs)
      else
        case extract_topics_for_reviews day_reviews groq of
          Inl e \<Rightarrow> Inl (e, fs)
        | Inr extraction_results \<Rightarrow>
            (let (tax, file) = load_app_taxonomy now app_id (taxonomy_file fs);
                 fs = fs\<lparr>taxonomy_file := file\<rparr>
             in case map_topics_to_taxonomy set_order extraction_results tax groq of
                  Inl e \<Rightarrow> Inl (e, fs)
                | Inr mappings \<Rightarrow>
                    (case consolidate_and_discover now extraction_results mappings app_id
                            date_str day_reviews groq fs of
                       Inl failure \<Rightarrow> Inl failure
                     | Inr c \<Rightarrow> Inr (c_batch c, c_storage c))))"

text \<open>\<open>date_range\<close> and \<open>get_date_strings_in_range\<close>\<close>

function date_range :: "day \<Rightarrow> day \<Rightarrow> day list" where
  "date_range current end_date =
     (if current \<le> end_date then current # date_range (current + 1) end_date else [])"
  by pat_completeness auto
termination
  by (relation "measure (\<lambda>(current, end_date). nat (end_date + 1 - current))") auto

declare date_range.simps [simp del]

definition get_date_strings_in_range :: "day \<Rightarrow> day list" where
  "get_date_strings_in_range target_date =
     (let (start_date, end_date) = get_trend_date_range target_date
      in date_range (date_of start_date) (date_of end_date))"

text \<open>The loop over the days of the window in \<open>orchestrate_analysis\<close>: the days processed so
  far, the failure that ended the loop (if any), and the files at the end.\<close>

record run =
  days_done :: "day list"
  failure :: "(day \<times> error) option"
  files :: storage

fun process_days ::
  "timestamp \<Rightarrow> (string list \<Rightarrow> string list) \<Rightarrow> review list \<Rightarrow> string \<Rightarrow> groq_client
     \<Rightarrow> day list \<Rightarrow> day list \<Rightarrow> storage \<Rightarrow> run" where
  "process_days now set_order reviews_df app_id groq processed [] fs =
     \<lparr>days_done = processed, failure = None, files = fs\<rparr>"
| "process_days now set_order reviews_df app_id groq processed (date_str # rest) fs =
     (case process_single_day now set_order reviews_df date_str app_id groq fs of
        Inl (e, fs') \<Rightarrow> \<lparr>days_done = processed, failure = Some (date_str, e), files = fs'\<rparr>
      | Inr (batch, fs') \<Rightarrow>
          process_days now set_order reviews_df app_id groq (processed @ [date_str]) rest fs')"

text \<open>\<open>orchestrate_analysis\<close> up to the end of the loop over the days; the trend report that
  follows reads the files and is not part of the model.\<close>

definition orchestrate_analysis ::
  "timestamp \<Rightarrow> (string list \<Rightarrow> string list) \<Rightarrow> (timestamp \<Rightarrow> timestamp \<Rightarrow> review list)
     \<Rightarrow> groq_client \<Rightarrow> string \<Rightarrow> day \<Rightarrow> storage \<Rightarrow> run" where
  "orchestrate_analysis now set_order fetch groq app_id target_date fs =
     (let scraped = smart_scrape fetch (reviews_csv fs) target_date;
          fs = fs\<lparr>reviews_csv := csv_after scraped\<rparr>;
          reviews_df = returned scraped
      in if reviews_df = [] then \<lparr>days_done = [], failure = None, files = fs\<rparr>
         else process_days now set_order reviews_df app_id groq []
                (get_date_strings_in_range target_date) fs)"

section \<open>Notions used in the statements\<close>

text \<open>An extracted topic is unmapped when the mappings hold no non-empty topic id for its
  stripped, lower-cased text: the condition of the \<open>else\<close> branch in the counting loop.\<close>

definition is_unmapped :: "(string \<times> mapping_result) list \<Rightarrow> string \<Rightarrow> bool" where
  "is_unmapped mappings topic =
     (case map_of mappings (py_lower (py_strip topic)) of
        None \<Rightarrow> True
      | Some mapping \<Rightarrow> (case mapped_topic_id mapping of None \<Rightarrow> True | Some i \<Rightarrow> i = []))"

text \<open>The unmapped phrases of a day, lower-cased, one entry per occurrence.\<close>

definition day_unmapped :: "extraction list \<Rightarrow> (string \<times> mapping_result) list \<Rightarrow> string list" where
  "day_unmapped extraction_results mappings =
     map py_lower (filter (is_unmapped mappings)
                     (concat (map get_extractedTopics extraction_results)))"

text \<open>The validation oracle accepts a phrase when its reply is an object with a true
  \<open>is_valid\<close>.\<close>

definition accepted :: "groq_client \<Rightarrow> string list \<Rightarrow> string \<Rightarrow> bool" where
  "accepted groq existing_names topic =
     (case validate_new_topic topic existing_names groq of
        Object validation \<Rightarrow> (case is_valid validation of None \<Rightarrow> False | Some b \<Rightarrow> b)
      | _ \<Rightarrow> False)"

text \<open>The topic names that \<open>consolidate_and_discover\<close> shows to the validation oracle: those
  of the taxonomy it loads.\<close>

definition existing_names_of :: "timestamp \<Rightarrow> string \<Rightarrow> storage \<Rightarrow> string list" where
  "existing_names_of now app_id fs =
     map topic_name (topics (fst (load_app_taxonomy now app_id (taxonomy_file fs))))"

section \<open>Example inputs\<close>

definition rev_a :: review where
  "rev_a = \<lparr>reviewId = ''1'', userName = ''u'', score = 1, at' = 100, content = ''a'',
            thumbsUpCount = 0, appVersion = None, replyContent = None, repliedAt = None\<rparr>"

definition rev_b :: review where
  "rev_b = \<lparr>reviewId = ''1'', userName = ''u'', score = 1, at' = 200, content = ''b'',
            thumbsUpCount = 0, appVersion = None, replyContent = None, repliedAt = None\<rparr>"

definition rev_c :: review where
  "rev_c = \<lparr>reviewId = ''2'', userName = ''v'', score = 5, at' = 300, content = ''c'',
            thumbsUpCount = 0, appVersion = None, replyContent = None, repliedAt = None\<rparr>"

text \<open>Days are counted from 1970-01-01: 2024-06-01 is day 19875 and 2024-07-02 is day 19906.\<close>

definition mk_review :: "string \<Rightarrow> timestamp \<Rightarrow> review" where
  "mk_review i t = \<lparr>reviewId = i, userName = ''u'', score = 3, at' = t, content = ''text'',
                     thumbsUpCount = 0, appVersion = None, replyContent = None, repliedAt = None\<rparr>"

definition june_store :: "review list" where
  "june_store = [mk_review ''r2'' (midnight 19904 + 3600), mk_review ''r1'' (midnight 19875 + 60)]"

definition july_feed :: "timestamp \<Rightarrow> timestamp \<Rightarrow> review list" where
  "july_feed reference cutoff =
     filter (\<lambda>r. cutoff \<le> at' r \<and> at' r \<le> reference)
       [mk_review ''r4'' (midnight 19906), mk_review ''r3'' (midnight 19905 + 10),
        mk_review ''r2'' (midnight 19904 + 3600)]"

text \<open>An oracle that reports the id \<open>delivery_delay\<close> with confidence 0.65 for every topic
  it is asked about, and gives no other reply.\<close>

definition low_result :: "string \<Rightarrow> mapping_result" where
  "low_result t = \<lparr>extracted_topic = Some t, mapped_topic_id = Some ''delivery_delay'',
                    confidence = Some (65 / 100), reasoning = ''partial match''\<rparr>"

definition low_groq :: groq_client where
  "low_groq = \<lparr>ask_extract = (\<lambda>rs. NoReply),
               ask_map_single = (\<lambda>t tax. Object (low_result t)),
               ask_map_batch = (\<lambda>ts tax. Array (map (\<lambda>t. Item (low_result t)) ts)),
               ask_validate = (\<lambda>t names. NoReply)\<rparr>"

definition empty_taxonomy :: taxonomy where
  "empty_taxonomy = \<lparr>tax_app_id = ''app'', topics = [], last_updated = 0\<rparr>"

definition late_extraction :: extraction where
  "late_extraction = \<lparr>er_reviewId = Some ''r1'', er_extractedTopics = Some ['' Late Delivery'']\<rparr>"

text \<open>Two new topics that carry the same id, as the consolidator builds them when the
  validation oracle suggests one id for two phrases.\<close>

definition crash_topic :: "string \<Rightarrow> topic_def" where
  "crash_topic phrase =
     \<lparr>topic_id = ''app_crash'', topic_name = ''App Crash'', category = ''issue'',
      variations = [phrase], description = ''Auto-discovered topic: '' @ phrase,
      added_date = 19906, is_seed = False, app_specific = True\<rparr>"

text \<open>A day on which every review asks for a dark mode, an oracle that maps nothing and
  validates every phrase under the id \<open>dark_theme\<close>, and an app without any file.\<close>

definition dark_extraction :: "string \<Rightarrow> extraction" where
  "dark_extraction i = \<lparr>er_reviewId = Some i, er_extractedTopics = Some [''Dark mode'']\<rparr>"

definition four_dark :: "extraction list" where
  "four_dark = map dark_extraction [''r1'', ''r2'', ''r3'', ''r4'']"

definition five_dark :: "extraction list" where
  "five_dark = map dark_extraction [''r1'', ''r2'', ''r3'', ''r4'', ''r5'']"

definition dark_validation :: validation where
  "dark_validation = \<lparr>is_valid = Some True, suggested_topic_id = Some ''dark_theme'',
                       suggested_topic_name = Some ''Dark Theme'',
                       suggested_category = Some ''request'',
                       val_reasoning = Some ''specific request''\<rparr>"

definition eager_groq :: groq_client where
  "eager_groq = \<lparr>ask_extract = (\<lambda>rs. Array (map (\<lambda>r. Item \<lparr>er_reviewId = Some (reviewId r),
                                                    er_extractedTopics = Some [content r]\<rparr>) rs)),
                 ask_map_single = (\<lambda>t tax. NoReply),
                 ask_map_batch = (\<lambda>ts tax. NoReply),
                 ask_validate = (\<lambda>t names. Object dark_validation)\<rparr>"

definition no_files :: storage where
  "no_files = \<lparr>reviews_csv = None, taxonomy_file = None, batch_files = [], details_files = []\<rparr>"

text \<open>The same oracle, except that it gives no reply when asked to validate \<open>dark mode\<close>.\<close>

definition silent_on_dark :: groq_client where
  "silent_on_dark =
     eager_groq\<lparr>ask_validate :=
                  (\<lambda>t names. if t = ''dark mode'' then NoReply else Object dark_validation)\<rparr>"

text \<open>The rows of a reviews CSV that covers two days, 2024-07-01 and 2024-07-02, three
  reviews per day, all with the text \<open>Dark mode\<close>.\<close>

definition dark_review :: "string \<Rightarrow> timestamp \<Rightarrow> review" where
  "dark_review i t = (mk_review i t)\<lparr>content := ''Dark mode''\<rparr>"

definition two_days :: "review list" where
  "two_days = [dark_review ''r6'' (midnight 19906 + 30), dark_review ''r5'' (midnight 19906 + 20),
               dark_review ''r4'' (midnight 19906 + 10), dark_review ''r3'' (midnight 19905 + 30),
               dark_review ''r2'' (midnight 19905 + 20), dark_review ''r1'' (midnight 19905 + 10)]"

text \<open>A sixth review whose topic the mapper has mapped to \<open>dark_theme\<close>.\<close>

definition six_dark :: "extraction list" where
  "six_dark = \<lparr>er_reviewId = Some ''r0'', er_extractedTopics = Some [''dark theme please'']\<rparr>
              # five_dark"

definition theme_mappings :: "(string \<times> mapping_result) list" where
  "theme_mappings =
     [(''dark theme please'',
       \<lparr>extracted_topic = Some ''dark theme please'', mapped_topic_id = Some ''dark_theme'',
        confidence = Some (9 / 10), reasoning = ''same request''\<rparr>)]"



text \<open>Runs of the pipeline for the target date 2024-07-02 on an app without files; the set
  of topics is enumerated in first-insertion order. The window is 2024-07-01 00:00:00 to
  2024-07-02 00:00:00. In the first Play Store, the only review is of 2024-07-01. In the
  second, one review is newer than the window, one is stamped 2024-07-02 00:00:00, three
  are of 2024-07-01 and one is older than the window.\<close>

definition first_seen_order :: "string list \<Rightarrow> string list" where
  "first_seen_order xs = xs"

definition july1_store :: "review list list" where
  "july1_store = [[dark_review ''r1'' (midnight 19905 + 10)]]"

definition july1_frame :: "review list" where
  "july1_frame = [dark_review ''r1'' (midnight 19905 + 10)]"



definition empty_day_run :: run where
  "empty_day_run =
     orchestrate_analysis 7 first_seen_order (fetch_reviews_by_date_range july1_store)
       eager_groq ''app'' 19906 no_files"



section \<open>Properties of the merge\<close>

lemma set_drop_duplicates_last_subset:
  "set (drop_duplicates_last rs) \<subseteq> set rs"
  by (induction rs) auto

lemma ids_drop_duplicates_last:
  "reviewId ` set (drop_duplicates_last rs) = reviewId ` set rs"
  by (induction rs) auto

lemma distinct_ids_drop_duplicates_last:
  "distinct (map reviewId (drop_duplicates_last rs))"
proof (induction rs)
  case Nil
  show ?case by simp
next
  case (Cons r rs)
  have "reviewId r \<notin> reviewId ` set rs \<Longrightarrow> reviewId r \<notin> reviewId ` set (drop_duplicates_last rs)"
    by (simp add: ids_drop_duplicates_last)
  with Cons show ?case by auto
qed

lemma drop_duplicates_last_id:
  "distinct (map reviewId rs) \<Longrightarrow> drop_duplicates_last rs = rs"
  by (induction rs) auto

lemma drop_duplicates_last_append_keeps_right:
  "r \<in> set (drop_duplicates_last (xs @ ys)) \<Longrightarrow>
     (if reviewId r \<in> reviewId ` set ys then r \<in> set ys else r \<in> set xs)"
proof (induction xs)
  case Nil
  then show ?case
    using set_drop_duplicates_last_subset [of ys] by auto
next
  case (Cons x xs)
  show ?case
  proof (cases "r \<in> set (drop_duplicates_last (xs @ ys))")
    case True
    with Cons.IH show ?thesis by (auto split: if_splits)
  next
    case False
    with Cons.prems have rx: "r = x" and notin: "reviewId x \<notin> reviewId ` set (xs @ ys)"
      by (auto split: if_splits)
    then show ?thesis by auto
  qed
qed

lemma drop_duplicates_last_self:
  "drop_duplicates_last (xs @ drop_duplicates_last ys) = drop_duplicates_last (xs @ ys)"
  by (induction xs) (auto simp: ids_drop_duplicates_last drop_duplicates_last_id
      distinct_ids_drop_duplicates_last)

lemma set_sort_values_desc: "set (sort_values_desc rs) = set rs"
  by (simp add: sort_values_desc_def)

lemma mset_sort_values_desc: "mset (sort_values_desc rs) = mset rs"
  by (simp add: sort_values_desc_def)

lemma length_sort_values_desc: "length (sort_values_desc rs) = length rs"
  by (simp add: sort_values_desc_def)

lemma distinct_ids_sort_values_desc:
  "distinct (map reviewId (sort_values_desc rs)) = distinct (map reviewId rs)"
proof -
  have "mset (map reviewId (sort_values_desc rs)) = mset (map reviewId rs)"
    by (simp add: mset_sort_values_desc)
  then show ?thesis
    by (metis distinct_count_atmost_1 set_mset_mset)
qed

lemma sorted_desc_sort_values_desc:
  "sorted_wrt (\<lambda>a b. at' a \<ge> at' b) (sort_values_desc rs)"
proof -
  have "sorted (map (\<lambda>r. - at' r) (sort_key (\<lambda>r. - at' r) rs))"
    by (rule sorted_sort_key)
  then show ?thesis
    by (simp add: sort_values_desc_def sorted_map sorted_wrt_iff_nth_less)
qed

lemma drop_duplicates_last_covered:
  "reviewId ` set xs \<subseteq> reviewId ` set ys \<Longrightarrow>
     drop_duplicates_last (xs @ ys) = drop_duplicates_last ys"
  by (induction xs) auto

lemma length_drop_duplicates_last:
  "length (drop_duplicates_last rs) = card (reviewId ` set rs)"
proof -
  have "length (map reviewId (drop_duplicates_last rs))
          = card (set (map reviewId (drop_duplicates_last rs)))"
    using distinct_ids_drop_duplicates_last [of rs] by (simp only: distinct_card)
  then show ?thesis
    by (simp add: ids_drop_duplicates_last)
qed

text \<open>
  C4. For all existing and incoming review sequences, the merge keeps one row per review id,
  covers exactly the ids of both inputs, takes the incoming row whenever the id occurs in
  the incoming sequence (and an existing row otherwise), and is sorted by timestamp,
  newest first. Merging a review with id 1 and text "a" with one with id 1 and text "b"
  yields exactly the review with text "b".
\<close>

theorem merge_reviews_right_biased:
  "distinct (map reviewId (merge_reviews existing incoming))
   \<and> reviewId ` set (merge_reviews existing incoming)
       = reviewId ` set existing \<union> reviewId ` set incoming
   \<and> (\<forall>r \<in> set (merge_reviews existing incoming).
         if reviewId r \<in> reviewId ` set incoming then r \<in> set incoming else r \<in> set existing)
   \<and> sorted_wrt (\<lambda>a b. at' a \<ge> at' b) (merge_reviews existing incoming)
   \<and> merge_reviews [r\<lparr>reviewId := ''1'', content := ''a''\<rparr>]
                     [r\<lparr>reviewId := ''1'', content := ''b''\<rparr>]
       = [r\<lparr>reviewId := ''1'', content := ''b''\<rparr>]"
proof (intro conjI ballI)
  show "distinct (map reviewId (merge_reviews existing incoming))"
    by (simp add: merge_reviews_def distinct_ids_sort_values_desc
        distinct_ids_drop_duplicates_last)
  show "reviewId ` set (merge_reviews existing incoming)
          = reviewId ` set existing \<union> reviewId ` set incoming"
    by (simp add: merge_reviews_def set_sort_values_desc ids_drop_duplicates_last image_Un)
  show "sorted_wrt (\<lambda>a b. at' a \<ge> at' b) (merge_reviews existing incoming)"
    by (simp add: merge_reviews_def sorted_desc_sort_values_desc)
  show "merge_reviews [r\<lparr>reviewId := ''1'', content := ''a''\<rparr>]
                      [r\<lparr>reviewId := ''1'', content := ''b''\<rparr>]
          = [r\<lparr>reviewId := ''1'', content := ''b''\<rparr>]"
    by (simp add: merge_reviews_def sort_values_desc_def)
next
  fix x
  assume "x \<in> set (merge_reviews existing incoming)"
  then have "x \<in> set (drop_duplicates_last (existing @ incoming))"
    by (simp add: merge_reviews_def set_sort_values_desc)
  then show "if reviewId x \<in> reviewId ` set incoming then x \<in> set incoming
             else x \<in> set existing"
    by (rule drop_duplicates_last_append_keeps_right)
qed

theorem merge_reviews_right_biased_witness:
  "merge_reviews [rev_a, rev_c] [rev_b] = [rev_c, rev_b]
   \<and> rev_b \<in> set (merge_reviews [rev_a, rev_c] [rev_b])
   \<and> reviewId rev_b \<in> reviewId ` set [rev_b]
   \<and> rev_b \<in> set [rev_b]
   \<and> distinct (map reviewId (merge_reviews [rev_a, rev_c] [rev_b]))"
proof -
  have m: "merge_reviews [rev_a, rev_c] [rev_b] = [rev_c, rev_b]"
    by (simp add: merge_reviews_def sort_values_desc_def rev_a_def rev_b_def rev_c_def)
  then have mem: "rev_b \<in> set (merge_reviews [rev_a, rev_c] [rev_b])"
    by simp
  have inc: "reviewId rev_b \<in> reviewId ` set [rev_b]"
    by simp
  note inst = merge_reviews_right_biased [of "[rev_a, rev_c]" "[rev_b]"]
  from inst mem have
    "if reviewId rev_b \<in> reviewId ` set [rev_b] then rev_b \<in> set [rev_b]
     else rev_b \<in> set [rev_a, rev_c]"
    by blast
  with inc have kept: "rev_b \<in> set [rev_b]"
    by (simp only: if_True)
  from inst have "distinct (map reviewId (merge_reviews [rev_a, rev_c] [rev_b]))"
    by blast
  with m mem inc kept show ?thesis by blast
qed

text \<open>
  C5. For every review table, merging it with itself yields the same set of review ids,
  and as many rows as there are distinct ids; when the table holds no duplicate ids (the
  store's invariant), the row count is unchanged and the rows are the same.
\<close>

theorem merge_reviews_self_idempotent:
  "reviewId ` set (merge_reviews store store) = reviewId ` set store
   \<and> length (merge_reviews store store) = card (reviewId ` set store)
   \<and> (distinct (map reviewId store) \<longrightarrow>
        length (merge_reviews store store) = length store
        \<and> mset (merge_reviews store store) = mset store)"
proof -
  have m: "merge_reviews store store = sort_values_desc (drop_duplicates_last store)"
    by (simp add: merge_reviews_def drop_duplicates_last_covered)
  have "reviewId ` set (merge_reviews store store) = reviewId ` set store"
    by (simp add: m set_sort_values_desc ids_drop_duplicates_last)
  moreover have "length (merge_reviews store store) = card (reviewId ` set store)"
    by (simp add: m length_sort_values_desc length_drop_duplicates_last)
  moreover have "mset (merge_reviews store store) = mset store"
    if "distinct (map reviewId store)"
    using that by (simp add: m mset_sort_values_desc drop_duplicates_last_id)
  moreover have "length (merge_reviews store store) = length store"
    if "distinct (map reviewId store)"
    using that by (simp add: m length_sort_values_desc drop_duplicates_last_id)
  ultimately show ?thesis by blast
qed

theorem merge_reviews_self_idempotent_witness:
  "distinct (map reviewId [rev_a, rev_c])
   \<and> length (merge_reviews [rev_a, rev_c] [rev_a, rev_c]) = length [rev_a, rev_c]
   \<and> mset (merge_reviews [rev_a, rev_c] [rev_a, rev_c]) = mset [rev_a, rev_c]"
proof -
  have d: "distinct (map reviewId [rev_a, rev_c])"
    by (simp add: rev_a_def rev_c_def)
  with merge_reviews_self_idempotent [of "[rev_a, rev_c]"] show ?thesis by blast
qed

section \<open>The smart-scrape decision table\<close>

lemma filter_by_date_range_within:
  "r \<in> set (filter_by_date_range df s e) \<Longrightarrow>
     df \<noteq> [] \<Longrightarrow> date_of s \<le> date_of (at' r) \<and> date_of (at' r) \<le> date_of e"
  by (simp add: filter_by_date_range_def)

lemma filter_by_date_range_within':
  "r \<in> set (filter_by_date_range df s e) \<Longrightarrow>
     date_of s \<le> date_of (at' r) \<and> date_of (at' r) \<le> date_of e"
  by (cases "df = []") (simp_all add: filter_by_date_range_def)

text \<open>
  C3. For a review CSV that exists and is not empty, with covered range from storeMin to
  storeMax and requested window from start to end (compared as dates): when the window is
  fully covered, nothing is fetched, the CSV is left as it is and the rows of the CSV in
  the window are returned; otherwise, when end is after storeMax, exactly one fetch is
  issued, with reference end and cutoff storeMax, and every returned row lies in the
  window (the rows are the window's part of the merged table); otherwise, when start is
  before storeMin, nothing is fetched and the CSV's rows in the window are returned.
\<close>

theorem smart_scrape_decision_table:
  assumes nonempty: "existing \<noteq> []"
    and window: "get_trend_date_range target = (start_date, end_date)"
    and smin: "storeMin = Min (set (map at' existing))"
    and smax: "storeMax = Max (set (map at' existing))"
    and res: "res = smart_scrape fetch (Some existing) target"
  shows "(date_of start_date \<ge> date_of storeMin \<and> date_of end_date \<le> date_of storeMax \<longrightarrow>
            fetch_calls res = [] \<and> csv_after res = Some existing
            \<and> returned res = filter_by_date_range existing start_date end_date)
       \<and> (\<not> (date_of start_date \<ge> date_of storeMin \<and> date_of end_date \<le> date_of storeMax)
            \<and> date_of end_date > date_of storeMax \<longrightarrow>
            fetch_calls res = [(end_date, storeMax)]
            \<and> returned res
                = filter_by_date_range (merge_reviews existing (fetch end_date storeMax))
                    start_date end_date
            \<and> (\<forall>r \<in> set (returned res).
                  date_of start_date \<le> date_of (at' r) \<and> date_of (at' r) \<le> date_of end_date))
       \<and> (\<not> (date_of start_date \<ge> date_of storeMin \<and> date_of end_date \<le> date_of storeMax)
            \<and> \<not> date_of end_date > date_of storeMax
            \<and> date_of start_date < date_of storeMin \<longrightarrow>
            fetch_calls res = [] \<and> csv_after res = Some existing
            \<and> returned res = filter_by_date_range existing start_date end_date)"
proof (intro conjI impI)
  assume "date_of storeMin \<le> date_of start_date \<and> date_of end_date \<le> date_of storeMax"
  then have r: "res = \<lparr>returned = filter_by_date_range existing start_date end_date,
                       csv_after = Some existing, fetch_calls = []\<rparr>"
    using nonempty by (simp add: res smart_scrape_def window smin smax)
  show "fetch_calls res = []" by (simp add: r)
  show "csv_after res = Some existing" by (simp add: r)
  show "returned res = filter_by_date_range existing start_date end_date" by (simp add: r)
next
  assume "\<not> (date_of storeMin \<le> date_of start_date \<and> date_of end_date \<le> date_of storeMax)
          \<and> date_of storeMax < date_of end_date"
  then have r: "res = \<lparr>returned = filter_by_date_range
                                     (merge_reviews existing (fetch end_date storeMax))
                                     start_date end_date,
                       csv_after = Some (merge_reviews existing (fetch end_date storeMax)),
                       fetch_calls = [(end_date, storeMax)]\<rparr>"
    using nonempty by (simp add: res smart_scrape_def window smin smax Let_def)
  show "fetch_calls res = [(end_date, storeMax)]" by (simp add: r)
  show "returned res = filter_by_date_range (merge_reviews existing (fetch end_date storeMax))
                         start_date end_date"
    by (simp add: r)
  show "\<forall>r \<in> set (returned res).
          date_of start_date \<le> date_of (at' r) \<and> date_of (at' r) \<le> date_of end_date"
    using filter_by_date_range_within' by (simp add: r)
next
  assume "\<not> (date_of storeMin \<le> date_of start_date \<and> date_of end_date \<le> date_of storeMax)
          \<and> \<not> date_of storeMax < date_of end_date \<and> date_of start_date < date_of storeMin"
  then have r: "res = \<lparr>returned = filter_by_date_range existing start_date end_date,
                       csv_after = Some existing, fetch_calls = []\<rparr>"
    using nonempty by (simp add: res smart_scrape_def window smin smax)
  show "fetch_calls res = []" by (simp add: r)
  show "csv_after res = Some existing" by (simp add: r)
  show "returned res = filter_by_date_range existing start_date end_date" by (simp add: r)
qed

theorem smart_scrape_decision_table_witness:
  "june_store \<noteq> []
   \<and> fetch_calls (smart_scrape july_feed (Some june_store) 19906)
       = [(midnight 19906, midnight 19904 + 3600)]
   \<and> returned (smart_scrape july_feed (Some june_store) 19906)
       = [mk_review ''r4'' (midnight 19906), mk_review ''r3'' (midnight 19905 + 10)]
   \<and> fetch_calls (smart_scrape july_feed (Some june_store) 19890) = []
   \<and> csv_after (smart_scrape july_feed (Some june_store) 19890) = Some june_store
   \<and> returned (smart_scrape july_feed (Some june_store) 19890) = []
   \<and> fetch_calls (smart_scrape july_feed (Some june_store) 19875) = []
   \<and> returned (smart_scrape july_feed (Some june_store) 19875)
       = [mk_review ''r1'' (midnight 19875 + 60)]"
proof -
  have ne: "june_store \<noteq> []" by (simp add: june_store_def)
  have mn: "midnight 19875 + 60 = Min (set (map at' june_store))"
    by (simp add: june_store_def mk_review_def midnight_def)
  have mx: "midnight 19904 + 3600 = Max (set (map at' june_store))"
    by (simp add: june_store_def mk_review_def midnight_def)
  have win: "get_trend_date_range d = (midnight (d - 1), midnight d)" for d
    by (simp add: get_trend_date_range_def midnight_def TREND_WINDOW_DAYS_def Let_def algebra_simps)
  have newer: "\<not> (date_of (midnight (19906 - 1)) \<ge> date_of (midnight 19875 + 60)
                  \<and> date_of (midnight 19906) \<le> date_of (midnight 19904 + 3600))
               \<and> date_of (midnight 19906) > date_of (midnight 19904 + 3600)"
    by (simp add: midnight_def date_of_def)
  have covered: "date_of (midnight (19890 - 1)) \<ge> date_of (midnight 19875 + 60)
                 \<and> date_of (midnight 19890) \<le> date_of (midnight 19904 + 3600)"
    by (simp add: midnight_def date_of_def)
  have older: "\<not> (date_of (midnight (19875 - 1)) \<ge> date_of (midnight 19875 + 60)
                  \<and> date_of (midnight 19875) \<le> date_of (midnight 19904 + 3600))
               \<and> \<not> date_of (midnight 19875) > date_of (midnight 19904 + 3600)
               \<and> date_of (midnight (19875 - 1)) < date_of (midnight 19875 + 60)"
    by (simp add: midnight_def date_of_def)
  have ret_newer:
    "filter_by_date_range
       (merge_reviews june_store (july_feed (midnight 19906) (midnight 19904 + 3600)))
       (midnight (19906 - 1)) (midnight 19906)
     = [mk_review ''r4'' (midnight 19906), mk_review ''r3'' (midnight 19905 + 10)]"
    by (simp add: june_store_def july_feed_def merge_reviews_def sort_values_desc_def
        filter_by_date_range_def mk_review_def midnight_def date_of_def)
  have ret_covered:
    "filter_by_date_range june_store (midnight (19890 - 1)) (midnight 19890) = []"
    by (simp add: june_store_def filter_by_date_range_def mk_review_def midnight_def date_of_def)
  have ret_older:
    "filter_by_date_range june_store (midnight (19875 - 1)) (midnight 19875)
     = [mk_review ''r1'' (midnight 19875 + 60)]"
    by (simp add: june_store_def filter_by_date_range_def mk_review_def midnight_def date_of_def)
  from smart_scrape_decision_table [OF ne win mn mx refl, of 19906 july_feed] newer ret_newer
  have b2: "fetch_calls (smart_scrape july_feed (Some june_store) 19906)
              = [(midnight 19906, midnight 19904 + 3600)]
            \<and> returned (smart_scrape july_feed (Some june_store) 19906)
              = [mk_review ''r4'' (midnight 19906), mk_review ''r3'' (midnight 19905 + 10)]"
    by simp
  from smart_scrape_decision_table [OF ne win mn mx refl, of 19890 july_feed] covered ret_covered
  have b1: "fetch_calls (smart_scrape july_feed (Some june_store) 19890) = []
            \<and> csv_after (smart_scrape july_feed (Some june_store) 19890) = Some june_store
            \<and> returned (smart_scrape july_feed (Some june_store) 19890) = []"
    by simp
  from smart_scrape_decision_table [OF ne win mn mx refl, of 19875 july_feed] older ret_older
  have b3: "fetch_calls (smart_scrape july_feed (Some june_store) 19875) = []
            \<and> returned (smart_scrape july_feed (Some june_store) 19875)
              = [mk_review ''r1'' (midnight 19875 + 60)]"
    by simp
  from ne b2 b1 b3 show ?thesis by blast
qed

section \<open>Confidence gating of the mapper\<close>

lemma apply_threshold_gated:
  "apply_threshold items = Inr rs \<Longrightarrow> r \<in> set rs \<Longrightarrow>
     get_confidence r < CONFIDENCE_THRESHOLD \<Longrightarrow> mapped_topic_id r = None"
proof (induction items arbitrary: rs rule: apply_threshold.induct)
  case 1
  then show ?case by simp
next
  case (2 rs')
  then show ?case by simp
next
  case (3 x xs)
  then show ?case
    by (auto split: sum.splits if_splits simp: get_confidence_def)
qed

lemma unmapped_result_gated: "gated (unmapped_result t why)"
  by (simp add: gated_def unmapped_result_def)

lemma map_single_topic_gated: "gated (map_single_topic t tax groq)"
  by (auto simp: map_single_topic_def gated_def unmapped_result_def get_confidence_def Let_def
      split: json_reply.splits)

lemma map_topics_batch_gated:
  "map_topics_batch ts tax groq = Inr rs \<Longrightarrow> r \<in> set rs \<Longrightarrow> gated r"
  unfolding map_topics_batch_def gated_def
  by (auto split: if_splits json_reply.splits
      simp: unmapped_result_def get_confidence_def dest: apply_threshold_gated)

lemma store_mappings_gated:
  "\<forall>(k, r) \<in> set m. gated r \<Longrightarrow> \<forall>r \<in> set rs. gated r \<Longrightarrow>
     \<forall>(k, r) \<in> set (store_mappings m rs). gated r"
proof (induction rs arbitrary: m)
  case Nil
  then show ?case by (simp add: store_mappings_def)
next
  case (Cons a rs)
  have "\<forall>(k, r) \<in> set (AList.update key a m). gated r" for key
    using Cons.prems by (induction m) (auto)
  then show ?case
    using Cons.IH [of "AList.update k a m" for k] Cons.prems(2)
    by (simp add: store_mappings_def)
qed

lemma map_batches_gated:
  "map_batches bs tax groq m = Inr out \<Longrightarrow> \<forall>(k, r) \<in> set m. gated r \<Longrightarrow>
     \<forall>(k, r) \<in> set out. gated r"
proof (induction bs arbitrary: m)
  case Nil
  then show ?case by simp
next
  case (Cons b bs)
  from Cons.prems(1) obtain results where
    b: "map_topics_batch b tax groq = Inr results"
    and rest: "map_batches bs tax groq (store_mappings m results) = Inr out"
    by (auto split: sum.splits)
  have "\<forall>r \<in> set results. gated r"
    using map_topics_batch_gated [OF b] by blast
  with Cons.prems(2) have "\<forall>(k, r) \<in> set (store_mappings m results). gated r"
    by (rule store_mappings_gated)
  with Cons.IH [OF rest] show ?case .
qed

lemma map_topics_to_taxonomy_gated:
  assumes run: "map_topics_to_taxonomy ord exts tax groq = Inr mappings"
  shows "\<forall>(k, r) \<in> set mappings. gated r"
proof (cases "ord (collect_topics exts) = []")
  case True
  with run have "mappings = []" by (simp add: map_topics_to_taxonomy_def)
  then show ?thesis by simp
next
  case False
  with run have
    "map_batches (chunks MAPPING_BATCH_SIZE (ord (collect_topics exts))) tax groq [] = Inr mappings"
    by (simp add: map_topics_to_taxonomy_def)
  then show ?thesis by (rule map_batches_gated) simp
qed

text \<open>
  C1. Every mapping result that the mapper produces has a null \<open>mapped_topic_id\<close> when its
  confidence (0.0 when the reply carried none) is below the confidence threshold: the
  result of \<open>map_single_topic\<close>, every result of \<open>map_topics_batch\<close>, and every entry of
  the mappings that \<open>map_topics_to_taxonomy\<close> hands to the consolidator, whatever id the
  oracle reported.
\<close>

theorem confidence_gating:
  "(get_confidence (map_single_topic t tax groq) < CONFIDENCE_THRESHOLD \<longrightarrow>
      mapped_topic_id (map_single_topic t tax groq) = None)
   \<and> (\<forall>rs. map_topics_batch ts tax groq = Inr rs \<longrightarrow>
         (\<forall>r \<in> set rs. get_confidence r < CONFIDENCE_THRESHOLD \<longrightarrow> mapped_topic_id r = None))
   \<and> (\<forall>mappings. map_topics_to_taxonomy set_order exts tax groq = Inr mappings \<longrightarrow>
         (\<forall>k r. map_of mappings k = Some r \<longrightarrow>
                get_confidence r < CONFIDENCE_THRESHOLD \<longrightarrow> mapped_topic_id r = None))"
proof (intro conjI allI impI ballI)
  assume "get_confidence (map_single_topic t tax groq) < CONFIDENCE_THRESHOLD"
  with map_single_topic_gated [of t tax groq]
  show "mapped_topic_id (map_single_topic t tax groq) = None"
    by (simp add: gated_def)
next
  fix rs r
  assume "map_topics_batch ts tax groq = Inr rs" and "r \<in> set rs"
    and "get_confidence r < CONFIDENCE_THRESHOLD"
  with map_topics_batch_gated [of ts tax groq rs r]
  show "mapped_topic_id r = None"
    by (simp add: gated_def)
next
  fix mappings k r
  assume run: "map_topics_to_taxonomy set_order exts tax groq = Inr mappings"
    and look: "map_of mappings k = Some r"
    and low: "get_confidence r < CONFIDENCE_THRESHOLD"
  from look have "(k, r) \<in> set mappings" by (rule map_of_SomeD)
  with map_topics_to_taxonomy_gated [OF run] have "gated r" by blast
  with low show "mapped_topic_id r = None" by (simp add: gated_def)
qed

theorem confidence_gating_witness:
  "get_confidence (map_single_topic ''late delivery'' empty_taxonomy low_groq) < CONFIDENCE_THRESHOLD
   \<and> mapped_topic_id (map_single_topic ''late delivery'' empty_taxonomy low_groq) = None
   \<and> map_topics_batch [''late delivery''] empty_taxonomy low_groq
       = Inr [(low_result ''late delivery'')\<lparr>mapped_topic_id := None\<rparr>]
   \<and> map_topics_to_taxonomy (\<lambda>xs. xs) [late_extraction] empty_taxonomy low_groq
       = Inr [(''late delivery'', (low_result ''late delivery'')\<lparr>mapped_topic_id := None\<rparr>)]
   \<and> get_confidence ((low_result ''late delivery'')\<lparr>mapped_topic_id := None\<rparr>) < CONFIDENCE_THRESHOLD
   \<and> mapped_topic_id ((low_result ''late delivery'')\<lparr>mapped_topic_id := None\<rparr>) = None"
proof -
  have s: "get_confidence (map_single_topic ''late delivery'' empty_taxonomy low_groq)
             < CONFIDENCE_THRESHOLD"
    by (simp add: map_single_topic_def low_groq_def low_result_def get_confidence_def
        CONFIDENCE_THRESHOLD_def)
  have b: "map_topics_batch [''late delivery''] empty_taxonomy low_groq
             = Inr [(low_result ''late delivery'')\<lparr>mapped_topic_id := None\<rparr>]"
    by (simp add: map_topics_batch_def low_groq_def low_result_def get_confidence_def
        CONFIDENCE_THRESHOLD_def)
  have c: "collect_topics [late_extraction] = [''late delivery'']"
    by (simp add: collect_topics_def late_extraction_def get_extractedTopics_def py_lower_def
        py_strip_def is_space_def lower_char_def is_upper_def)
  have ch: "chunks MAPPING_BATCH_SIZE [''late delivery''] = [[''late delivery'']]"
    by (simp add: chunks.simps MAPPING_BATCH_SIZE_def)
  have m: "map_topics_to_taxonomy (\<lambda>xs. xs) [late_extraction] empty_taxonomy low_groq
             = Inr [(''late delivery'', (low_result ''late delivery'')\<lparr>mapped_topic_id := None\<rparr>)]"
    by (simp add: map_topics_to_taxonomy_def c ch b store_mappings_def low_result_def
        py_lower_def lower_char_def is_upper_def)
  have low: "get_confidence ((low_result ''late delivery'')\<lparr>mapped_topic_id := None\<rparr>)
               < CONFIDENCE_THRESHOLD"
    by (simp add: low_result_def get_confidence_def CONFIDENCE_THRESHOLD_def)
  from confidence_gating [of "''late delivery''" empty_taxonomy low_groq "[''late delivery'']"
      "\<lambda>xs. xs" "[late_extraction]"] s b m low
  show ?thesis by simp
qed

section \<open>Adding topics to the taxonomy\<close>

lemma add_loop_filter:
  "foldl (\<lambda>ts topic. if topic_id topic \<notin> ids then ts @ [topic] else ts) acc new_topics
     = acc @ filter (\<lambda>t. topic_id t \<notin> ids) new_topics"
  by (induction new_topics arbitrary: acc) auto

lemma add_topics_to_taxonomy_existing:
  "add_topics_to_taxonomy now app new_topics (Some tax)
     = Some (tax\<lparr>topics := topics tax
                     @ filter (\<lambda>t. topic_id t \<notin> set (map topic_id (topics tax))) new_topics,
                  last_updated := now\<rparr>)"
  by (simp add: add_topics_to_taxonomy_def load_app_taxonomy_def save_app_taxonomy_def
      add_loop_filter)

lemma add_topics_to_taxonomy_skips_known:
  "\<forall>t \<in> set new_topics. topic_id t \<in> set (map topic_id (topics tax)) \<Longrightarrow>
     add_topics_to_taxonomy now app new_topics (Some tax) = Some (tax\<lparr>last_updated := now\<rparr>)"
  by (simp add: add_topics_to_taxonomy_existing filter_False)

lemma add_topics_to_taxonomy_distinct:
  assumes "distinct (map topic_id (topics tax))" and "distinct (map topic_id new_topics)"
    and "add_topics_to_taxonomy now app new_topics (Some tax) = Some tax'"
  shows "distinct (map topic_id (topics tax'))"
proof -
  have "distinct (map topic_id (filter (\<lambda>t. topic_id t \<notin> set (map topic_id (topics tax))) new_topics))"
    using assms(2) by (rule distinct_map_filter)
  with assms(1,3) show ?thesis
    by (auto simp: add_topics_to_taxonomy_existing) (metis imageI)
qed

text \<open>
  C2, evaluated at a candidate sequence that holds the same new id twice: both candidates
  are appended to the seed taxonomy, so the stored topic ids are no longer distinct.
\<close>

theorem add_topics_duplicate_candidates:
  "add_topics_to_taxonomy 7 ''app'' [crash_topic ''app crash'', crash_topic ''app crashes'']
       (Some (get_seed_topics_as_taxonomy 0 ''app''))
     = Some ((get_seed_topics_as_taxonomy 0 ''app'')
               \<lparr>topics := topics (get_seed_topics_as_taxonomy 0 ''app'')
                           @ [crash_topic ''app crash'', crash_topic ''app crashes''],
                last_updated := 7\<rparr>)
   \<and> \<not> distinct (map topic_id
          (topics (get_seed_topics_as_taxonomy 0 ''app'')
           @ [crash_topic ''app crash'', crash_topic ''app crashes'']))"
proof -
  have ids: "map topic_id (topics (get_seed_topics_as_taxonomy 0 ''app''))
               = [''delivery_delay'', ''quality_issue'', ''staff_behavior'', ''order_accuracy'',
                  ''payment_issue'', ''app_technical'', ''customer_support'', ''pricing'',
                  ''packaging'', ''feature_request'']"
    by (simp add: get_seed_topics_as_taxonomy_def SEED_TOPICS_def)
  have new: "topic_id (crash_topic p) = ''app_crash''" for p
    by (simp add: crash_topic_def)
  show ?thesis
    by (simp add: add_topics_to_taxonomy_existing ids new)
qed

section \<open>Counting and promotion in the consolidator\<close>

subsection \<open>Counter\<close>

lemma counter_get_update:
  "counter_get (AList.update x v c) k = (if k = x then v else counter_get c k)"
  by (simp add: counter_get_def update_conv')

lemma counter_get_add:
  "counter_get (counter_add c x) k = (if k = x then counter_get c x + 1 else counter_get c k)"
  by (simp add: counter_add_def counter_get_update)

lemma keys_counter_add: "fst ` set (counter_add c x) = insert x (fst ` set c)"
  by (simp add: counter_add_def dom_update)

lemma distinct_counter_add: "distinct (map fst c) \<Longrightarrow> distinct (map fst (counter_add c x))"
  by (simp add: counter_add_def distinct_update)

lemma counter_fold_get:
  "counter_get (foldl counter_add c0 xs) k
     = counter_get c0 k + count_list xs k"
  by (induction xs arbitrary: c0) (auto simp: counter_get_add)

lemma counter_fold_keys:
  "fst ` set (foldl counter_add c0 xs) = fst ` set c0 \<union> set xs"
  by (induction xs arbitrary: c0) (auto simp: keys_counter_add)

lemma counter_fold_distinct:
  "distinct (map fst c0) \<Longrightarrow>
     distinct (map fst (foldl counter_add c0 xs))"
  by (induction xs arbitrary: c0) (auto simp: distinct_counter_add)

lemma distinct_counter: "distinct (map fst (counter xs))"
  by (simp add: counter_def counter_fold_distinct)

lemma keys_counter: "fst ` set (counter xs) = set xs"
  by (simp add: counter_def counter_fold_keys)

lemma counter_get_counter: "counter_get (counter xs) k = count_list xs k"
proof -
  have "counter_get (counter xs) k = counter_get [] k + count_list xs k"
    unfolding counter_def by (rule counter_fold_get)
  then show ?thesis by (simp add: counter_get_def)
qed

lemma counter_entry:
  assumes "(k, n) \<in> set (counter xs)"
  shows "n = count_list xs k" and "k \<in> set xs"
proof -
  from assms have "map_of (counter xs) k = Some n"
    using distinct_counter [of xs] by simp
  then have "counter_get (counter xs) k = n" by (simp add: counter_get_def)
  then show "n = count_list xs k" by (simp add: counter_get_counter)
  from assms have "k \<in> fst ` set (counter xs)" by force
  then show "k \<in> set xs" by (simp add: keys_counter)
qed

lemma counter_filter_card:
  "length (filter (\<lambda>(t, c). P c) (counter xs)) = card {p \<in> set xs. P (count_list xs p)}"
proof -
  let ?f = "filter (\<lambda>(t, c). P c) (counter xs)"
  have d: "distinct (map fst ?f)"
    using distinct_counter [of xs] by (simp add: distinct_map_filter)
  have "set (map fst ?f) = {p \<in> set xs. P (count_list xs p)}"
  proof (intro set_eqI iffI)
    fix p assume "p \<in> set (map fst ?f)"
    then obtain n where "(p, n) \<in> set (counter xs)" and "P n" by auto
    with counter_entry [of p n xs] show "p \<in> {p \<in> set xs. P (count_list xs p)}" by simp
  next
    fix p assume "p \<in> {p \<in> set xs. P (count_list xs p)}"
    then have px: "p \<in> set xs" and pc: "P (count_list xs p)" by simp_all
    from px have "p \<in> fst ` set (counter xs)" by (simp add: keys_counter)
    then obtain n where n: "(p, n) \<in> set (counter xs)" by force
    with counter_entry(1) [OF n] pc have "(p, n) \<in> set ?f" by simp
    then show "p \<in> set (map fst ?f)" by force
  qed
  with d show ?thesis
    by (metis distinct_card length_map)
qed

subsection \<open>The counting loop\<close>

lemma unmapped_topics_add_mapped [simp]:
  "unmapped_topics (add_mapped i rd t c st) = unmapped_topics st"
  by (simp add: add_mapped_def)

lemma unmapped_topics_add_unmapped [simp]:
  "unmapped_topics (add_unmapped low rd t st) = unmapped_topics st @ [t]"
  by (simp add: add_unmapped_def)

lemma unmapped_topics_tally_topic:
  "unmapped_topics (tally_topic mappings rd st t)
     = unmapped_topics st @ (if is_unmapped mappings t then [t] else [])"
  by (simp add: tally_topic_def is_unmapped_def Let_def split: option.splits)

lemma unmapped_topics_tally_topics:
  "unmapped_topics (foldl (tally_topic mappings rd) st ts)
     = unmapped_topics st @ filter (is_unmapped mappings) ts"
  by (induction ts arbitrary: st) (simp_all add: unmapped_topics_tally_topic)

lemma unmapped_topics_tally_result:
  "unmapped_topics (tally_result mappings lookup st e)
     = unmapped_topics st @ filter (is_unmapped mappings) (get_extractedTopics e)"
  by (simp add: tally_result_def Let_def unmapped_topics_tally_topics)

lemma unmapped_topics_tally_results:
  "unmapped_topics (foldl (tally_result mappings lookup) st es)
     = unmapped_topics st @ filter (is_unmapped mappings) (concat (map get_extractedTopics es))"
  by (induction es arbitrary: st) (simp_all add: unmapped_topics_tally_result)

lemma unmapped_counts_of_tally_all:
  "unmapped_counts_of (tally_all es mappings df) = counter (day_unmapped es mappings)"
  by (simp add: unmapped_counts_of_def tally_all_def unmapped_topics_tally_results
      initial_locals_def day_unmapped_def)

subsection \<open>The promotion loop\<close>

lemma promote_topic_below:
  "c < MIN_TOPIC_OCCURRENCES \<Longrightarrow> promote_topic groq names d st (p, c) = Inr st"
  by (simp add: promote_topic_def)

lemma promote_topic_rejected:
  "MIN_TOPIC_OCCURRENCES \<le> c \<Longrightarrow> \<not> accepted groq names p \<Longrightarrow>
     promote_topic groq names d st (p, c) = Inr st' \<Longrightarrow>
     st' = st\<lparr>validation_calls := validation_calls st @ [p]\<rparr>"
  by (auto simp: promote_topic_def accepted_def Let_def split: json_reply.splits if_splits)

lemma promote_topic_calls:
  "promote_topic groq names d st (p, c) = Inr st' \<Longrightarrow>
     validation_calls st' = validation_calls st @ (if MIN_TOPIC_OCCURRENCES \<le> c then [p] else [])"
  by (auto simp: promote_topic_def Let_def split: json_reply.splits if_splits)

lemma promote_topic_unmapped:
  "promote_topic groq names d st (p, c) = Inr st' \<Longrightarrow>
     unmapped_topics st' = unmapped_topics st \<and> unmapped_reviews st' = unmapped_reviews st
     \<and> reviews_with_no_topics st' = reviews_with_no_topics st"
  by (auto simp: promote_topic_def Let_def split: json_reply.splits if_splits)

lemma promote_topic_new_topics:
  "promote_topic groq names d st (p, c) = Inr st' \<Longrightarrow>
     new_topics_to_add st' = new_topics_to_add st
     \<or> (\<exists>t. new_topics_to_add st' = new_topics_to_add st @ [t] \<and> variations t = [p]
             \<and> MIN_TOPIC_OCCURRENCES \<le> c \<and> accepted groq names p)"
  by (auto simp: promote_topic_def accepted_def Let_def split: json_reply.splits if_splits)

lemma in_set_updateD:
  "(i, n) \<in> set (AList.update k v al) \<Longrightarrow> (i = k \<and> n = v) \<or> (i, n) \<in> set al"
  by (induction al) (auto split: if_splits)

lemma promote_topic_counts:
  "promote_topic groq names d st (p, c) = Inr st' \<Longrightarrow> (i, n) \<in> set (topic_counts st') \<Longrightarrow>
     (i, n) \<in> set (topic_counts st)
     \<or> (n = c \<and> MIN_TOPIC_OCCURRENCES \<le> c \<and> accepted groq names p)"
  by (auto simp: promote_topic_def accepted_def Let_def
      split: json_reply.splits if_splits dest: in_set_updateD)

lemma promote_all_calls:
  "promote_all groq names d st items = Inr st' \<Longrightarrow>
     validation_calls st'
       = validation_calls st @ map fst (filter (\<lambda>(t, c). MIN_TOPIC_OCCURRENCES \<le> c) items)"
proof (induction items arbitrary: st)
  case Nil
  then show ?case by simp
next
  case (Cons item items)
  obtain p c where item: "item = (p, c)" by (cases item)
  from Cons.prems obtain st1 where
    one: "promote_topic groq names d st (p, c) = Inr st1"
    and rest: "promote_all groq names d st1 items = Inr st'"
    by (auto simp: item split: sum.splits)
  from Cons.IH [OF rest] promote_topic_calls [OF one] show ?case
    by (simp add: item)
qed

lemma promote_all_unmapped:
  "promote_all groq names d st items = Inr st' \<Longrightarrow>
     unmapped_topics st' = unmapped_topics st \<and> unmapped_reviews st' = unmapped_reviews st
     \<and> reviews_with_no_topics st' = reviews_with_no_topics st"
proof (induction items arbitrary: st)
  case Nil
  then show ?case by simp
next
  case (Cons item items)
  obtain p c where item: "item = (p, c)" by (cases item)
  from Cons.prems obtain st1 where
    one: "promote_topic groq names d st (p, c) = Inr st1"
    and rest: "promote_all groq names d st1 items = Inr st'"
    by (auto simp: item split: sum.splits)
  from Cons.IH [OF rest] promote_topic_unmapped [OF one] show ?case
    by simp
qed

lemma promote_all_new_topics:
  "promote_all groq names d st items = Inr st' \<Longrightarrow> t \<in> set (new_topics_to_add st') \<Longrightarrow>
     t \<in> set (new_topics_to_add st)
     \<or> (\<exists>(p, c) \<in> set items. variations t = [p] \<and> MIN_TOPIC_OCCURRENCES \<le> c
            \<and> accepted groq names p)"
proof (induction items arbitrary: st)
  case Nil
  then show ?case by simp
next
  case (Cons item items)
  obtain p c where item: "item = (p, c)" by (cases item)
  from Cons.prems(1) obtain st1 where
    one: "promote_topic groq names d st (p, c) = Inr st1"
    and rest: "promote_all groq names d st1 items = Inr st'"
    by (auto simp: item split: sum.splits)
  from Cons.IH [OF rest Cons.prems(2)] consider
    (old) "t \<in> set (new_topics_to_add st1)"
    | (later) "\<exists>(p, c) \<in> set items. variations t = [p] \<and> MIN_TOPIC_OCCURRENCES \<le> c
                 \<and> accepted groq names p"
    by blast
  then show ?case
  proof cases
    case old
    with promote_topic_new_topics [OF one] show ?thesis
      by (auto simp: item)
  next
    case later
    then show ?thesis by auto
  qed
qed

lemma promote_all_counts:
  "promote_all groq names d st items = Inr st' \<Longrightarrow> (i, n) \<in> set (topic_counts st') \<Longrightarrow>
     (i, n) \<in> set (topic_counts st)
     \<or> (\<exists>(p, c) \<in> set items. n = c \<and> MIN_TOPIC_OCCURRENCES \<le> c \<and> accepted groq names p)"
proof (induction items arbitrary: st)
  case Nil
  then show ?case by simp
next
  case (Cons item items)
  obtain p c where item: "item = (p, c)" by (cases item)
  from Cons.prems(1) obtain st1 where
    one: "promote_topic groq names d st (p, c) = Inr st1"
    and rest: "promote_all groq names d st1 items = Inr st'"
    by (auto simp: item split: sum.splits)
  from Cons.IH [OF rest Cons.prems(2)] consider
    (old) "(i, n) \<in> set (topic_counts st1)"
    | (later) "\<exists>(p, c) \<in> set items. n = c \<and> MIN_TOPIC_OCCURRENCES \<le> c
                 \<and> accepted groq names p"
    by blast
  then show ?case
  proof cases
    case old
    with promote_topic_counts [OF one] show ?thesis
      by (auto simp: item)
  next
    case later
    then show ?thesis by auto
  qed
qed

subsection \<open>The whole function\<close>

lemma tally_topic_keeps:
  "new_topics_to_add (tally_topic ms rd st t) = new_topics_to_add st
   \<and> validation_calls (tally_topic ms rd st t) = validation_calls st"
  by (simp add: tally_topic_def add_mapped_def add_unmapped_def Let_def split: option.splits)

lemma tally_topics_keeps:
  "new_topics_to_add (foldl (tally_topic ms rd) st ts) = new_topics_to_add st
   \<and> validation_calls (foldl (tally_topic ms rd) st ts) = validation_calls st"
  by (induction ts arbitrary: st) (simp_all add: tally_topic_keeps)

lemma tally_result_keeps:
  "new_topics_to_add (tally_result ms lookup st e) = new_topics_to_add st
   \<and> validation_calls (tally_result ms lookup st e) = validation_calls st"
  by (simp add: tally_result_def Let_def tally_topics_keeps)

lemma tally_all_keeps:
  "new_topics_to_add (tally_all es ms df) = [] \<and> validation_calls (tally_all es ms df) = []"
proof -
  have "new_topics_to_add (foldl (tally_result ms lookup) st es) = new_topics_to_add st
        \<and> validation_calls (foldl (tally_result ms lookup) st es) = validation_calls st"
    for lookup st
    by (induction es arbitrary: st) (simp_all add: tally_result_keeps)
  then show ?thesis
    by (simp add: tally_all_def initial_locals_def)
qed

lemma consolidate_and_discover_Inr:
  assumes "consolidate_and_discover now es ms app d df groq fs = Inr res"
  obtains st0 where
    "promote_all groq (existing_names_of now app fs) d st0 (counter (day_unmapped es ms))
       = Inr (c_locals res)"
    and "topic_counts st0 = topic_counts (tally_all es ms df)"
    and "new_topics_to_add st0 = []"
    and "validation_calls st0 = []"
    and "c_batch res = make_batch now app d es (counter (day_unmapped es ms)) (c_locals res)"
    and "c_detailed res = make_detailed now app d es (c_locals res)"
proof -
  let ?tax = "fst (load_app_taxonomy now app (taxonomy_file fs))"
  let ?st0 = "(tally_all es ms df)
                \<lparr>topic_id_to_name := map (\<lambda>t. (topic_id t, topic_name t)) (topics ?tax)\<rparr>"
  from assms obtain st where
    p: "promote_all groq (existing_names_of now app fs) d ?st0 (counter (day_unmapped es ms)) = Inr st"
    and r: "res = \<lparr>c_batch = make_batch now app d es (counter (day_unmapped es ms)) st,
                    c_detailed = make_detailed now app d es st,
                    c_storage = c_storage res, c_locals = st\<rparr>"
    by (auto simp: consolidate_and_discover_def Let_def unmapped_counts_of_tally_all
        existing_names_of_def split: prod.splits sum.splits)
  have "c_locals res = st" by (subst r) simp
  moreover have "c_batch res = make_batch now app d es (counter (day_unmapped es ms)) st"
    by (subst r) simp
  moreover have "c_detailed res = make_detailed now app d es st"
    by (subst r) simp
  moreover have "new_topics_to_add ?st0 = []" "validation_calls ?st0 = []"
    "topic_counts ?st0 = topic_counts (tally_all es ms df)"
    by (simp_all add: tally_all_keeps)
  ultimately show ?thesis using p that [of ?st0] by simp
qed

lemma promote_topic_cong:
  "(MIN_TOPIC_OCCURRENCES \<le> c \<longrightarrow> (\<forall>ns. ask_validate groq' p ns = ask_validate groq p ns)) \<Longrightarrow>
     promote_topic groq' names d st (p, c) = promote_topic groq names d st (p, c)"
  by (simp add: promote_topic_def validate_new_topic_def)

lemma promote_all_cong:
  "\<forall>(p, c) \<in> set items.
     MIN_TOPIC_OCCURRENCES \<le> c \<longrightarrow> (\<forall>ns. ask_validate groq' p ns = ask_validate groq p ns) \<Longrightarrow>
     promote_all groq' names d st items = promote_all groq names d st items"
proof (induction items arbitrary: st)
  case Nil
  show ?case by simp
next
  case (Cons item items)
  obtain p c where item: "item = (p, c)" by (cases item)
  from Cons.prems have
    "promote_topic groq' names d st (p, c) = promote_topic groq names d st (p, c)"
    by (intro promote_topic_cong) (simp add: item)
  moreover from Cons.prems have
    "promote_all groq' names d st1 items = promote_all groq names d st1 items" for st1
    by (intro Cons.IH) simp
  ultimately show ?case by (simp add: item split: sum.splits)
qed

lemma consolidate_and_discover_cong:
  assumes "\<forall>p. MIN_TOPIC_OCCURRENCES \<le> count_list (day_unmapped es ms) p \<longrightarrow>
             (\<forall>ns. ask_validate groq' p ns = ask_validate groq p ns)"
  shows "consolidate_and_discover now es ms app d df groq' fs
           = consolidate_and_discover now es ms app d df groq fs"
proof -
  have "\<forall>(p, c) \<in> set (counter (day_unmapped es ms)).
          MIN_TOPIC_OCCURRENCES \<le> c \<longrightarrow> (\<forall>ns. ask_validate groq' p ns = ask_validate groq p ns)"
    using assms counter_entry(1) by fastforce
  then have "promote_all groq' names d st (counter (day_unmapped es ms))
               = promote_all groq names d st (counter (day_unmapped es ms))" for names st
    by (rule promote_all_cong)
  then show ?thesis
    by (simp add: consolidate_and_discover_def Let_def unmapped_counts_of_tally_all
        split: prod.splits)
qed

text \<open>
  C7. The promotion threshold is applied to the occurrence counts of the day's batch, the
  extraction results handed to this call. The outcome of \<open>consolidate_and_discover\<close> does not
  depend on what the validation oracle would answer for a phrase that occurs fewer than
  \<open>MIN_TOPIC_OCCURRENCES\<close> times among the day's unmapped phrases. When the call returns,
  the validation oracle was asked exactly for the unmapped phrases of the day that occur at
  least \<open>MIN_TOPIC_OCCURRENCES\<close> times; a phrase that occurs exactly
  \<open>MIN_TOPIC_OCCURRENCES - 1\<close> times was not asked about and no new topic was built from
  it; \<open>new_topics_discovered\<close> lists the ids of the new topics, and it is empty, with no
  validation call at all, when every unmapped phrase of the day is below the threshold.
\<close>

theorem promotion_threshold_per_day:
  "((\<forall>q. q \<noteq> p \<longrightarrow> (\<forall>ns. ask_validate groq' q ns = ask_validate groq q ns))
      \<and> count_list (day_unmapped es ms) p < MIN_TOPIC_OCCURRENCES \<longrightarrow>
      consolidate_and_discover now es ms app d df groq' fs
        = consolidate_and_discover now es ms app d df groq fs)
   \<and> (consolidate_and_discover now es ms app d df groq fs = Inr res \<longrightarrow>
        validation_calls (c_locals res)
          = map fst (filter (\<lambda>(t, c). MIN_TOPIC_OCCURRENCES \<le> c) (counter (day_unmapped es ms)))
        \<and> new_topics_discovered (c_batch res) = map topic_id (new_topics_to_add (c_locals res))
        \<and> (count_list (day_unmapped es ms) p = MIN_TOPIC_OCCURRENCES - 1 \<longrightarrow>
             p \<notin> set (validation_calls (c_locals res))
             \<and> (\<forall>t \<in> set (new_topics_to_add (c_locals res)). variations t \<noteq> [p]))
        \<and> ((\<forall>q. count_list (day_unmapped es ms) q < MIN_TOPIC_OCCURRENCES) \<longrightarrow>
             validation_calls (c_locals res) = [] \<and> new_topics_discovered (c_batch res) = []))"
proof (intro conjI impI)
  assume "(\<forall>q. q \<noteq> p \<longrightarrow> (\<forall>ns. ask_validate groq' q ns = ask_validate groq q ns))
          \<and> count_list (day_unmapped es ms) p < MIN_TOPIC_OCCURRENCES"
  then have "\<forall>q. MIN_TOPIC_OCCURRENCES \<le> count_list (day_unmapped es ms) q \<longrightarrow>
               (\<forall>ns. ask_validate groq' q ns = ask_validate groq q ns)"
    by (metis not_le)
  then show "consolidate_and_discover now es ms app d df groq' fs
               = consolidate_and_discover now es ms app d df groq fs"
    by (rule consolidate_and_discover_cong)
next
  assume run: "consolidate_and_discover now es ms app d df groq fs = Inr res"
  let ?xs = "day_unmapped es ms"
  from run obtain st0 where
    loop: "promote_all groq (existing_names_of now app fs) d st0 (counter ?xs) = Inr (c_locals res)"
    and new0: "new_topics_to_add st0 = []"
    and calls0: "validation_calls st0 = []"
    and batch: "c_batch res = make_batch now app d es (counter ?xs) (c_locals res)"
    by (rule consolidate_and_discover_Inr)
  show calls: "validation_calls (c_locals res)
          = map fst (filter (\<lambda>(t, c). MIN_TOPIC_OCCURRENCES \<le> c) (counter ?xs))"
    using promote_all_calls [OF loop] calls0 by simp
  show ids: "new_topics_discovered (c_batch res) = map topic_id (new_topics_to_add (c_locals res))"
    by (simp add: batch make_batch_def)
  have origin: "\<exists>q. variations t = [q] \<and> MIN_TOPIC_OCCURRENCES \<le> count_list ?xs q"
    if "t \<in> set (new_topics_to_add (c_locals res))" for t
  proof -
    from promote_all_new_topics [OF loop that] new0
    obtain q c where "(q, c) \<in> set (counter ?xs)" "variations t = [q]" "MIN_TOPIC_OCCURRENCES \<le> c"
      by auto
    with counter_entry(1) [of q c ?xs] show ?thesis by auto
  qed
  have called: "MIN_TOPIC_OCCURRENCES \<le> count_list ?xs q"
    if "q \<in> set (validation_calls (c_locals res))" for q
  proof -
    from that obtain c where "(q, c) \<in> set (counter ?xs)" "MIN_TOPIC_OCCURRENCES \<le> c"
      by (auto simp: calls)
    with counter_entry(1) [of q c ?xs] show ?thesis by simp
  qed
  {
    assume below: "count_list ?xs p = MIN_TOPIC_OCCURRENCES - 1"
    have pos: "0 < MIN_TOPIC_OCCURRENCES" by (simp add: MIN_TOPIC_OCCURRENCES_def)
    show "p \<notin> set (validation_calls (c_locals res))"
      using called [of p] below pos by auto
    show "\<forall>t \<in> set (new_topics_to_add (c_locals res)). variations t \<noteq> [p]"
      using origin below pos by fastforce
  }
  {
    assume all_below: "\<forall>q. count_list ?xs q < MIN_TOPIC_OCCURRENCES"
    have "set (validation_calls (c_locals res)) = {}"
      using called all_below by (metis all_not_in_conv not_le)
    then show "validation_calls (c_locals res) = []" by simp
    have "set (new_topics_to_add (c_locals res)) = {}"
      using origin all_below by (metis all_not_in_conv not_le)
    then show "new_topics_discovered (c_batch res) = []" by (simp add: ids)
  }
qed

theorem promotion_threshold_per_day_witness:
  "count_list (day_unmapped four_dark []) ''dark mode'' = MIN_TOPIC_OCCURRENCES - 1
   \<and> consolidate_and_discover 7 four_dark [] ''app'' 19906 [] silent_on_dark no_files
       = consolidate_and_discover 7 four_dark [] ''app'' 19906 [] eager_groq no_files
   \<and> (\<exists>res. consolidate_and_discover 7 four_dark [] ''app'' 19906 [] eager_groq no_files = Inr res
          \<and> ''dark mode'' \<notin> set (validation_calls (c_locals res))
          \<and> validation_calls (c_locals res) = []
          \<and> new_topics_discovered (c_batch res) = [])"
proof -
  have xs: "day_unmapped four_dark [] = [''dark mode'', ''dark mode'', ''dark mode'', ''dark mode'']"
    by code_simp
  have cnt: "count_list (day_unmapped four_dark []) ''dark mode'' = MIN_TOPIC_OCCURRENCES - 1"
    by (simp add: xs MIN_TOPIC_OCCURRENCES_def)
  have below: "\<forall>q. count_list (day_unmapped four_dark []) q < MIN_TOPIC_OCCURRENCES"
    by (simp add: xs MIN_TOPIC_OCCURRENCES_def)
  have same: "\<forall>q. q \<noteq> ''dark mode'' \<longrightarrow>
                (\<forall>ns. ask_validate silent_on_dark q ns = ask_validate eager_groq q ns)"
    by (simp add: silent_on_dark_def eager_groq_def)
  have "case consolidate_and_discover 7 four_dark [] ''app'' 19906 [] eager_groq no_files of
          Inl x \<Rightarrow> False | Inr res \<Rightarrow> True"
    by code_simp
  then obtain res where
    run: "consolidate_and_discover 7 four_dark [] ''app'' 19906 [] eager_groq no_files = Inr res"
    by (auto split: sum.splits)
  note inst = promotion_threshold_per_day [of "''dark mode''" silent_on_dark eager_groq four_dark
      "[]" 7 "''app''" 19906 "[]" no_files res]
  have lt: "count_list (day_unmapped four_dark []) ''dark mode'' < MIN_TOPIC_OCCURRENCES"
    using below by blast
  from inst same lt have c1:
    "consolidate_and_discover 7 four_dark [] ''app'' 19906 [] silent_on_dark no_files
       = consolidate_and_discover 7 four_dark [] ''app'' 19906 [] eager_groq no_files"
    by blast
  from inst run cnt have c2: "''dark mode'' \<notin> set (validation_calls (c_locals res))"
    by blast
  from inst run below have c3:
    "validation_calls (c_locals res) = [] \<and> new_topics_discovered (c_batch res) = []"
    by blast
  from cnt c1 run c2 c3 show ?thesis by blast
qed

text \<open>A phrase that occurs three times on each of two days is promoted on neither day, even
  with a validation oracle that would accept it: both batches report no new topic and one
  unmapped phrase, and the taxonomy keeps its ten seed topics.\<close>

lemma two_day_phrase_never_promoted:
  "count_list (map content (get_reviews_for_date two_days 19905)) ''Dark mode'' = 3
   \<and> count_list (map content (get_reviews_for_date two_days 19906)) ''Dark mode'' = 3
   \<and> days_done (process_days 7 first_seen_order two_days ''app'' eager_groq [] [19905, 19906] no_files)
       = [19905, 19906]
   \<and> map (\<lambda>(d, b). (d, new_topics_discovered b, unmapped_count b))
        (batch_files (files (process_days 7 first_seen_order two_days ''app'' eager_groq []
                               [19905, 19906] no_files)))
       = [(19905, [], Some 1), (19906, [], Some 1)]
   \<and> map_option (\<lambda>t. length (topics t))
        (taxonomy_file (files (process_days 7 first_seen_order two_days ''app'' eager_groq []
                                 [19905, 19906] no_files)))
       = Some 10"
  by code_simp

lemma promote_all_all_rejected:
  "promote_all groq names d st items = Inr st' \<Longrightarrow>
     \<forall>(p, c) \<in> set items. MIN_TOPIC_OCCURRENCES \<le> c \<longrightarrow> \<not> accepted groq names p \<Longrightarrow>
     topic_counts st' = topic_counts st \<and> new_topics_to_add st' = new_topics_to_add st
     \<and> reviews_by_topic st' = reviews_by_topic st"
proof (induction items arbitrary: st)
  case Nil
  then show ?case by simp
next
  case (Cons item items)
  obtain p c where item: "item = (p, c)" by (cases item)
  from Cons.prems(1) obtain st1 where
    one: "promote_topic groq names d st (p, c) = Inr st1"
    and rest: "promote_all groq names d st1 items = Inr st'"
    by (auto simp: item split: sum.splits)
  have "topic_counts st1 = topic_counts st \<and> new_topics_to_add st1 = new_topics_to_add st
        \<and> reviews_by_topic st1 = reviews_by_topic st"
  proof (cases "MIN_TOPIC_OCCURRENCES \<le> c")
    case True
    with Cons.prems(2) have "\<not> accepted groq names p" by (simp add: item)
    from promote_topic_rejected [OF True this one] show ?thesis by simp
  next
    case False
    with one show ?thesis by (simp add: promote_topic_below)
  qed
  moreover from Cons.prems(2) have
    "\<forall>(p, c) \<in> set items. MIN_TOPIC_OCCURRENCES \<le> c \<longrightarrow> \<not> accepted groq names p"
    by simp
  from Cons.IH [OF rest this] have
    "topic_counts st' = topic_counts st1 \<and> new_topics_to_add st' = new_topics_to_add st1
     \<and> reviews_by_topic st' = reviews_by_topic st1" .
  ultimately show ?case by simp
qed

text \<open>
  C10. In the batch that \<open>consolidate_and_discover\<close> emits, \<open>unmapped_count\<close> is the number of
  distinct lower-cased unmapped phrases of the day that occur fewer than
  \<open>MIN_TOPIC_OCCURRENCES\<close> times. A phrase at or above the threshold that the validation
  oracle rejects is not among the phrases counted, no new topic is built from it, and it
  adds nothing to \<open>topic_frequencies\<close>: every entry there is an entry of the mapped counts
  or carries the count of a phrase that was accepted, and when every phrase at or above
  the threshold is rejected, \<open>topic_frequencies\<close> is exactly the mapped counts.
\<close>

theorem unmapped_count_below_threshold:
  assumes run: "consolidate_and_discover now es ms app d df groq fs = Inr res"
  shows "unmapped_count (c_batch res)
           = Some (card {q \<in> set (day_unmapped es ms).
                          count_list (day_unmapped es ms) q < MIN_TOPIC_OCCURRENCES})
       \<and> (MIN_TOPIC_OCCURRENCES \<le> count_list (day_unmapped es ms) p
            \<and> \<not> accepted groq (existing_names_of now app fs) p \<longrightarrow>
            p \<notin> {q \<in> set (day_unmapped es ms).
                    count_list (day_unmapped es ms) q < MIN_TOPIC_OCCURRENCES}
            \<and> (\<forall>t \<in> set (new_topics_to_add (c_locals res)). variations t \<noteq> [p]))
       \<and> (\<forall>(i, n) \<in> set (topic_frequencies (c_batch res)).
            (i, n) \<in> set (topic_counts (tally_all es ms df))
            \<or> (\<exists>q \<in> set (day_unmapped es ms).
                  n = count_list (day_unmapped es ms) q \<and> MIN_TOPIC_OCCURRENCES \<le> n
                  \<and> accepted groq (existing_names_of now app fs) q))
       \<and> ((\<forall>q. MIN_TOPIC_OCCURRENCES \<le> count_list (day_unmapped es ms) q \<longrightarrow>
                 \<not> accepted groq (existing_names_of now app fs) q) \<longrightarrow>
            topic_frequencies (c_batch res) = topic_counts (tally_all es ms df))"
proof -
  let ?xs = "day_unmapped es ms"
  let ?names = "existing_names_of now app fs"
  from run obtain st0 where
    loop: "promote_all groq ?names d st0 (counter ?xs) = Inr (c_locals res)"
    and counts0: "topic_counts st0 = topic_counts (tally_all es ms df)"
    and new0: "new_topics_to_add st0 = []"
    and batch: "c_batch res = make_batch now app d es (counter ?xs) (c_locals res)"
    by (rule consolidate_and_discover_Inr)
  have freq: "topic_frequencies (c_batch res) = topic_counts (c_locals res)"
    by (simp add: batch make_batch_def)
  have c1: "unmapped_count (c_batch res)
              = Some (card {q \<in> set ?xs. count_list ?xs q < MIN_TOPIC_OCCURRENCES})"
    by (simp add: batch make_batch_def counter_filter_card)
  have c2: "p \<notin> {q \<in> set ?xs. count_list ?xs q < MIN_TOPIC_OCCURRENCES}
            \<and> (\<forall>t \<in> set (new_topics_to_add (c_locals res)). variations t \<noteq> [p])"
    if high: "MIN_TOPIC_OCCURRENCES \<le> count_list ?xs p" and rej: "\<not> accepted groq ?names p"
  proof
    from high show "p \<notin> {q \<in> set ?xs. count_list ?xs q < MIN_TOPIC_OCCURRENCES}" by simp
    show "\<forall>t \<in> set (new_topics_to_add (c_locals res)). variations t \<noteq> [p]"
    proof
      fix t assume "t \<in> set (new_topics_to_add (c_locals res))"
      from promote_all_new_topics [OF loop this] new0
      obtain q c where "variations t = [q]" "accepted groq ?names q" by auto
      with rej show "variations t \<noteq> [p]" by auto
    qed
  qed
  have c3: "\<forall>(i, n) \<in> set (topic_frequencies (c_batch res)).
              (i, n) \<in> set (topic_counts (tally_all es ms df))
              \<or> (\<exists>q \<in> set ?xs. n = count_list ?xs q \<and> MIN_TOPIC_OCCURRENCES \<le> n
                    \<and> accepted groq ?names q)"
  proof (clarify)
    fix i n
    assume in_freq: "(i, n) \<in> set (topic_frequencies (c_batch res))"
      and no_acc: "\<not> (\<exists>q \<in> set ?xs. n = count_list ?xs q \<and> MIN_TOPIC_OCCURRENCES \<le> n
                         \<and> accepted groq ?names q)"
    from in_freq have "(i, n) \<in> set (topic_counts (c_locals res))" by (simp add: freq)
    from promote_all_counts [OF loop this] consider
      (old) "(i, n) \<in> set (topic_counts st0)"
      | (new) q c where "(q, c) \<in> set (counter ?xs)" "n = c" "MIN_TOPIC_OCCURRENCES \<le> c"
          "accepted groq ?names q"
      by auto
    then show "(i, n) \<in> set (topic_counts (tally_all es ms df))"
    proof cases
      case old
      then show ?thesis by (simp add: counts0)
    next
      case new
      with counter_entry [of q c ?xs] no_acc show ?thesis by auto
    qed
  qed
  have c4: "topic_frequencies (c_batch res) = topic_counts (tally_all es ms df)"
    if all_rej: "\<forall>q. MIN_TOPIC_OCCURRENCES \<le> count_list ?xs q \<longrightarrow> \<not> accepted groq ?names q"
  proof -
    have "\<forall>(q, c) \<in> set (counter ?xs). MIN_TOPIC_OCCURRENCES \<le> c \<longrightarrow> \<not> accepted groq ?names q"
      using all_rej counter_entry(1) by fastforce
    from promote_all_all_rejected [OF loop this] show ?thesis
      by (simp add: freq counts0)
  qed
  from c1 c2 c3 c4 show ?thesis by blast
qed

theorem unmapped_count_below_threshold_witness:
  "\<exists>res. consolidate_and_discover 7 five_dark [] ''app'' 19906 [] low_groq no_files = Inr res
     \<and> MIN_TOPIC_OCCURRENCES \<le> count_list (day_unmapped five_dark []) ''dark mode''
     \<and> \<not> accepted low_groq (existing_names_of 7 ''app'' no_files) ''dark mode''
     \<and> unmapped_count (c_batch res) = Some 0
     \<and> (\<forall>t \<in> set (new_topics_to_add (c_locals res)). variations t \<noteq> [''dark mode''])
     \<and> topic_frequencies (c_batch res) = []"
proof -
  have xs: "day_unmapped five_dark []
              = [''dark mode'', ''dark mode'', ''dark mode'', ''dark mode'', ''dark mode'']"
    by code_simp
  have high: "MIN_TOPIC_OCCURRENCES \<le> count_list (day_unmapped five_dark []) ''dark mode''"
    by (simp add: xs MIN_TOPIC_OCCURRENCES_def)
  have rej: "\<not> accepted low_groq names q" for names q
    by (simp add: accepted_def validate_new_topic_def low_groq_def)
  have none: "{q \<in> set (day_unmapped five_dark []).
                 count_list (day_unmapped five_dark []) q < MIN_TOPIC_OCCURRENCES} = {}"
    by (auto simp: xs MIN_TOPIC_OCCURRENCES_def)
  have mapped: "topic_counts (tally_all five_dark [] []) = []"
    by code_simp
  have "case consolidate_and_discover 7 five_dark [] ''app'' 19906 [] low_groq no_files of
          Inl x \<Rightarrow> False | Inr res \<Rightarrow> True"
    by code_simp
  then obtain res where
    run: "consolidate_and_discover 7 five_dark [] ''app'' 19906 [] low_groq no_files = Inr res"
    by (auto split: sum.splits)
  note inst = unmapped_count_below_threshold [OF run, of "''dark mode''"]
  from inst none have c1: "unmapped_count (c_batch res) = Some 0" by simp
  from inst high rej have c2:
    "\<forall>t \<in> set (new_topics_to_add (c_locals res)). variations t \<noteq> [''dark mode'']"
    by blast
  from inst rej mapped have c4: "topic_frequencies (c_batch res) = []" by simp
  from run high rej c1 c2 c4 show ?thesis by blast
qed

subsection \<open>Promotion of a phrase\<close>

lemma promote_topic_accepted:
  assumes "MIN_TOPIC_OCCURRENCES \<le> c"
    and "validate_new_topic p names groq = Object v" and "is_valid v = Some True"
    and "promote_topic groq names d st (p, c) = Inr st'"
    and "new_id = (case suggested_topic_id v of None \<Rightarrow> generate_topic_id p | Some i \<Rightarrow> i)"
  shows "map_of (topic_counts st') new_id = Some c"
    and "map_of (reviews_by_topic st') new_id = Some (list_get (unmapped_reviews st) p)"
    and "unmapped_reviews st' = unmapped_reviews st"
  using assms by (auto simp: promote_topic_def Let_def update_conv')

text \<open>
  C6, evaluated on a day with five reviews that ask for a dark mode, no mapping, and a
  validation oracle that accepts the phrase under the id \<open>dark_theme\<close>, which is not the
  slug \<open>dark_mode\<close> of the phrase: the phrase is promoted and its five reviews are listed
  under \<open>dark_theme\<close>, but the detailed export still lists the phrase, with the same five
  reviews, among the unmapped topics.
\<close>

theorem promoted_phrase_still_unmapped:
  "case consolidate_and_discover 7 five_dark [] ''app'' 19906 [] eager_groq no_files of
     Inl x \<Rightarrow> False
   | Inr res \<Rightarrow>
       new_topics_discovered (c_batch res) = [''dark_theme'']
       \<and> topic_frequencies (c_batch res) = [(''dark_theme'', 5)]
       \<and> map (\<lambda>(t, detail). (t, td_count detail)) (d_topics (c_detailed res))
           = [(''dark_theme'', 5)]
       \<and> map (\<lambda>(t, n, reviews). (t, n)) (d_unmapped_topics (c_detailed res))
           = [(''dark mode'', 5)]
       \<and> generate_topic_id ''dark mode'' = ''dark_mode''"
  by code_simp

lemma promotion_overwrites_mapped_topic:
  "case consolidate_and_discover 7 six_dark theme_mappings ''app'' 19906 [] eager_groq no_files of
     Inl x \<Rightarrow> False
   | Inr res \<Rightarrow>
       topic_counts (tally_all six_dark theme_mappings []) = [(''dark_theme'', 1)]
       \<and> topic_frequencies (c_batch res) = [(''dark_theme'', 5)]
       \<and> map (\<lambda>(t, detail). (t, td_count detail)) (d_topics (c_detailed res))
           = [(''dark_theme'', 5)]"
  by code_simp

section \<open>What a fetch returns\<close>

lemma scan_page_within:
  "scan_page reference cutoff acc page = (stopped, collected) \<Longrightarrow>
     \<forall>r \<in> set acc. cutoff \<le> at' r \<and> at' r \<le> reference \<Longrightarrow>
     \<forall>r \<in> set collected. cutoff \<le> at' r \<and> at' r \<le> reference"
proof (induction page arbitrary: acc)
  case Nil
  then show ?case by simp
next
  case (Cons x page)
  show ?case
  proof (cases "at' x < cutoff")
    case True
    with Cons.prems show ?thesis by simp
  next
    case False
    let ?acc = "if at' x \<le> reference then acc @ [x] else acc"
    from False Cons.prems(1) have step: "scan_page reference cutoff ?acc page = (stopped, collected)"
      by simp
    from False Cons.prems(2) have "\<forall>r \<in> set ?acc. cutoff \<le> at' r \<and> at' r \<le> reference"
      by simp
    with step show ?thesis by (rule Cons.IH)
  qed
qed


lemma fetch_pages_within:
  "\<forall>r \<in> set acc. cutoff \<le> at' r \<and> at' r \<le> reference \<Longrightarrow>
     \<forall>r \<in> set (fetch_pages reference cutoff acc pages). cutoff \<le> at' r \<and> at' r \<le> reference"
proof (induction pages arbitrary: acc)
  case Nil
  then show ?case by simp
next
  case (Cons page pages)
  show ?case
  proof (cases "page = []")
    case True
    with Cons.prems show ?thesis by simp
  next
    case False
    obtain stopped collected where sp: "scan_page reference cutoff acc page = (stopped, collected)"
      by (cases "scan_page reference cutoff acc page")
    from sp Cons.prems
    have c: "\<forall>r \<in> set collected. cutoff \<le> at' r \<and> at' r \<le> reference"
      by (rule scan_page_within)
    show ?thesis
    proof (cases stopped)
      case True
      with False sp have "fetch_pages reference cutoff acc (page # pages) = collected"
        by simp
      with c show ?thesis by (simp only:)
    next
      case stop: False
      with False sp have "fetch_pages reference cutoff acc (page # pages)
                            = fetch_pages reference cutoff collected pages"
        by simp
      with Cons.IH [OF c] show ?thesis by (simp only:)
    qed
  qed
qed

lemma fetch_reviews_by_date_range_within:
  assumes "r \<in> set (fetch_reviews_by_date_range play_store reference cutoff)"
  shows "cutoff \<le> at' r \<and> at' r \<le> reference"
proof -
  have "set (fetch_reviews_by_date_range play_store reference cutoff)
          \<subseteq> set (fetch_pages reference cutoff [] play_store)"
    by (simp add: fetch_reviews_by_date_range_def convert_to_dataframe_def set_sort_values_desc)
  with assms have "r \<in> set (fetch_pages reference cutoff [] play_store)"
    by blast
  moreover have "\<forall>r \<in> set (fetch_pages reference cutoff [] play_store).
                   cutoff \<le> at' r \<and> at' r \<le> reference"
    by (rule fetch_pages_within) simp
  ultimately show ?thesis by blast
qed

section \<open>Days without reviews\<close>

text \<open>
  C8, as stated, fails: for the target date 2024-07-02 on an app without files, the Play
  Store holds one review, of 2024-07-01. The fetch returns it, both days of the window are
  processed, the batch of 2024-07-01 is saved, and no batch is saved for 2024-07-02, the
  day without reviews.
\<close>

theorem empty_day_batch_not_persisted:
  "returned (smart_scrape (fetch_reviews_by_date_range july1_store) None 19906) = july1_frame
   \<and> get_reviews_for_date july1_frame 19906 = []
   \<and> days_done empty_day_run = [19905, 19906]
   \<and> failure empty_day_run = None
   \<and> load_batch (files empty_day_run) 19906 = None
   \<and> map_option total_reviews (load_batch (files empty_day_run) 19905) = Some 1"
  by code_simp

text \<open>
  C8, amended. For every date with an empty review set, \<open>process_single_day\<close> returns an
  explicit zero-valued batch for the app and the date, with \<open>total_reviews\<close> 0, empty
  \<open>topic_frequencies\<close> and empty \<open>new_topics_discovered\<close>, whatever the oracle would answer,
  and leaves every file as it was: the batch is returned, and no batch file is written or
  overwritten for the date.
\<close>

theorem empty_day_returns_zero_batch:
  assumes "get_reviews_for_date reviews_df date_str = []"
  shows "process_single_day now set_order reviews_df date_str app groq fs
           = Inr (empty_batch app date_str, fs)
       \<and> b_app_id (empty_batch app date_str) = app
       \<and> b_date (empty_batch app date_str) = date_str
       \<and> total_reviews (empty_batch app date_str) = 0
       \<and> topic_frequencies (empty_batch app date_str) = []
       \<and> new_topics_discovered (empty_batch app date_str) = []"
  using assms by (simp add: process_single_day_def empty_batch_def)

theorem empty_day_returns_zero_batch_witness:
  "get_reviews_for_date july1_frame 19906 = []
   \<and> process_single_day 7 first_seen_order july1_frame 19906 ''app'' eager_groq no_files
       = Inr (empty_batch ''app'' 19906, no_files)
   \<and> total_reviews (empty_batch ''app'' 19906) = 0
   \<and> topic_frequencies (empty_batch ''app'' 19906) = []
   \<and> new_topics_discovered (empty_batch ''app'' 19906) = []"
proof -
  have e: "get_reviews_for_date july1_frame 19906 = []"
    by code_simp
  from empty_day_returns_zero_batch [OF e, of 7 first_seen_order "''app''" eager_groq no_files] e
  show ?thesis by blast
qed

section \<open>The loop over the days\<close>





end
